theory Spec2Isabelle
  imports Main
begin

section \<open>NodeVault: the record store, its helpers and the shell's search\<close>

text \<open>
  The embedding follows \<^verbatim>\<open>src/db/index.js\<close> (the record store), the search case of
  the interactive shell and the activity logger.  JavaScript values are a datatype,
  exceptions are the left injection of a sum, the module's variables and the world it
  writes to (collection, backup files, console, event bus) are one explicit state, and
  what the world answers to a call (does the insert succeed, what time is it) is an
  explicit argument.

  Numbers: the numbers of this program are record counters and millisecond time
  stamps.  They are modelled as mathematical integers, which is what IEEE doubles are
  on integers of magnitude below \<open>2 ^ 53\<close>; fractions, \<open>NaN\<close> and the infinities are not
  values of the model (a conversion that yields \<open>NaN\<close> is \<open>None\<close>).
  Strings are lists of 8-bit characters; case folding and trimming are the ASCII ones.
\<close>

subsection \<open>Strings\<close>

text \<open>The decimal digits are the characters with the codes 48 to 57.\<close>

definition digit_char :: "nat \<Rightarrow> char" where
  "digit_char n = char_of (48 + n mod 10)"

definition digit_val :: "char \<Rightarrow> nat option" where
  "digit_val c = (let k = (of_char c :: nat) in if 48 \<le> k \<and> k \<le> 57 then Some (k - 48) else None)"

definition is_digit :: "char \<Rightarrow> bool" where
  "is_digit c = (digit_val c \<noteq> None)"

text \<open>The regular expression \<^verbatim>\<open>/^\d+$/\<close>: one or more ASCII digits and nothing else.\<close>

definition all_digits :: "string \<Rightarrow> bool" where
  "all_digits s = (s \<noteq> [] \<and> list_all is_digit s)"

text \<open>The value of a digit string read in base ten, most significant digit first.\<close>

fun digits_value :: "nat \<Rightarrow> string \<Rightarrow> nat" where
  "digits_value acc [] = acc"
| "digits_value acc (c # cs) = digits_value (10 * acc + (case digit_val c of Some d \<Rightarrow> d | None \<Rightarrow> 0)) cs"

text \<open>The decimal digits of a natural number, at least \<open>w\<close> of them (zero padded).\<close>

fun pad_digits :: "nat \<Rightarrow> nat \<Rightarrow> string" where
  "pad_digits 0 n = (if n = 0 then [] else pad_digits 0 (n div 10) @ [digit_char (n mod 10)])"
| "pad_digits (Suc w) n = pad_digits w (n div 10) @ [digit_char (n mod 10)]"

definition string_of_nat :: "nat \<Rightarrow> string" where
  "string_of_nat n = pad_digits 1 n"

definition string_of_int :: "int \<Rightarrow> string" where
  "string_of_int i = (if i < 0 then CHR ''-'' # string_of_nat (nat (- i)) else string_of_nat (nat i))"

definition is_space :: "char \<Rightarrow> bool" where
  "is_space c = (c = CHR '' '' \<or> c = CHR 0x09 \<or> c = CHR 0x0A \<or> c = CHR 0x0B \<or> c = CHR 0x0C \<or> c = CHR 0x0D)"

definition trim :: "string \<Rightarrow> string" where
  "trim s = rev (dropWhile is_space (rev (dropWhile is_space s)))"

definition lower_char :: "char \<Rightarrow> char" where
  "lower_char c =
     (let n = (of_char c :: nat) in if 65 \<le> n \<and> n \<le> 90 then char_of (n + 32) else c)"

definition toLowerCase :: "string \<Rightarrow> string" where
  "toLowerCase s = map lower_char s"

fun starts_with :: "string \<Rightarrow> string \<Rightarrow> bool" where
  "starts_with s [] = True"
| "starts_with [] (p # ps) = False"
| "starts_with (c # cs) (p # ps) = (c = p \<and> starts_with cs ps)"

text \<open>\<^verbatim>\<open>s.includes(p)\<close>: \<open>p\<close> occurs in \<open>s\<close> as a contiguous substring.\<close>

fun str_includes :: "string \<Rightarrow> string \<Rightarrow> bool" where
  "str_includes [] p = (p = [])"
| "str_includes (c # cs) p = (starts_with (c # cs) p \<or> str_includes cs p)"

text \<open>\<^verbatim>\<open>s.replace(a, b)\<close> with one-character strings: the first occurrence only.\<close>

fun replace_first :: "char \<Rightarrow> char \<Rightarrow> string \<Rightarrow> string" where
  "replace_first a b [] = []"
| "replace_first a b (c # cs) = (if c = a then b # cs else c # replace_first a b cs)"

text \<open>\<^verbatim>\<open>s.split('.')[0]\<close>: what stands before the first dot.\<close>

definition before_dot :: "string \<Rightarrow> string" where
  "before_dot s = takeWhile (\<lambda>c. c \<noteq> CHR ''.'') s"

subsection \<open>The engine's Date\<close>

text \<open>
  A time value is a number of milliseconds since the epoch; a Date object is a time
  value, or the Invalid Date (\<open>None\<close>).  The calendar follows the definitions of
  ECMA-262 (Day, DayFromYear, YearFromTime, MonthFromTime, DateFromTime, MakeDay,
  MakeDate, TimeClip).
\<close>

definition msPerDay :: int where
  "msPerDay = 86400000"

definition TimeClip :: "int \<Rightarrow> int option" where
  "TimeClip t = (if \<bar>t\<bar> \<le> 8640000000000000 then Some t else None)"

definition DayFromYear :: "int \<Rightarrow> int" where
  "DayFromYear y =
     365 * (y - 1970) + (y - 1969) div 4 - (y - 1901) div 100 + (y - 1601) div 400"

definition InLeapYear :: "int \<Rightarrow> bool" where
  "InLeapYear y = (y mod 4 = 0 \<and> (y mod 100 \<noteq> 0 \<or> y mod 400 = 0))"

lemma div_succ:
  fixes a n :: int
  assumes "0 < n"
  shows "(a + 1) div n = a div n + (if (a + 1) mod n = 0 then 1 else 0)"
proof (cases "a mod n + 1 < n")
  case True
  have eq: "a + 1 = n * (a div n) + (a mod n + 1)"
    by simp
  have nn: "0 \<le> a mod n + 1"
    using assms pos_mod_sign[of n a] by linarith
  have "(a + 1) div n = a div n"
    by (rule int_div_pos_eq[OF eq nn True])
  moreover have "(a + 1) mod n = a mod n + 1"
    by (rule int_mod_pos_eq[OF eq nn True])
  moreover have "a mod n + 1 \<noteq> 0"
    using pos_mod_sign[OF assms, of a] by linarith
  ultimately show ?thesis
    by simp
next
  case False
  with assms have e: "a mod n + 1 = n"
    using pos_mod_bound[of n a] by linarith
  have "n * (a div n + 1) + 0 = n * (a div n) + (a mod n + 1)"
    by (simp add: e distrib_left)
  also have "\<dots> = a + 1"
    by simp
  finally have eq: "a + 1 = n * (a div n + 1) + 0"
    by simp
  have "(a + 1) div n = a div n + 1"
    by (rule int_div_pos_eq[OF eq order_refl assms])
  moreover have "(a + 1) mod n = 0"
    by (rule int_mod_pos_eq[OF eq order_refl assms])
  ultimately show ?thesis
    by simp
qed

lemma DayFromYear_step:
  "DayFromYear (y + 1) = DayFromYear y + (if InLeapYear y then 366 else 365)"
proof -
  have a: "(y + 1 - 1969) div 4 = (y - 1969) div 4 + (if y mod 4 = 0 then 1 else 0)"
  proof -
    have "(y - 1969 + 1) mod 4 = (y + (- 492) * 4) mod 4"
      by simp
    also have "\<dots> = y mod 4"
      by (rule mod_mult_self1)
    finally show ?thesis
      using div_succ[of 4 "y - 1969"] by simp
  qed
  have b: "(y + 1 - 1901) div 100 = (y - 1901) div 100 + (if y mod 100 = 0 then 1 else 0)"
  proof -
    have "(y - 1901 + 1) mod 100 = (y + (- 19) * 100) mod 100"
      by simp
    also have "\<dots> = y mod 100"
      by (rule mod_mult_self1)
    finally show ?thesis
      using div_succ[of 100 "y - 1901"] by simp
  qed
  have c: "(y + 1 - 1601) div 400 = (y - 1601) div 400 + (if y mod 400 = 0 then 1 else 0)"
  proof -
    have "(y - 1601 + 1) mod 400 = (y + (- 4) * 400) mod 400"
      by simp
    also have "\<dots> = y mod 400"
      by (rule mod_mult_self1)
    finally show ?thesis
      using div_succ[of 400 "y - 1601"] by simp
  qed
  have "(4::int) dvd 100" and "(100::int) dvd 400"
    by simp_all
  then have d1: "y mod 400 = 0 \<Longrightarrow> y mod 100 = 0" and d2: "y mod 100 = 0 \<Longrightarrow> y mod 4 = 0"
    by (meson dvd_trans mod_eq_0_iff_dvd)+
  have e: "DayFromYear (y + 1) = DayFromYear y + 365 + (if y mod 4 = 0 then 1 else 0)
          - (if y mod 100 = 0 then 1 else 0) + (if y mod 400 = 0 then 1 else 0)"
    unfolding DayFromYear_def a b c by (simp only: algebra_simps)
  have l: "(if y mod 4 = 0 then 1 else 0) - (if y mod 100 = 0 then 1 else 0) + (if y mod 400 = 0 then 1 else 0)
      = (if InLeapYear y then 1 else (0::int))"
    unfolding InLeapYear_def using d1 d2 by (cases "y mod 4 = 0"; cases "y mod 100 = 0"; cases "y mod 400 = 0") simp_all
  show ?thesis
    using e l by (simp split: if_splits)
qed

lemma DayFromYear_less: "DayFromYear y < DayFromYear (y + 1)"
  by (simp add: DayFromYear_step)

text \<open>
  YearFromTime is the largest year whose first day is not after the day: the search
  starts at a year that is not too late and walks up.
\<close>

function year_search :: "int \<Rightarrow> int \<Rightarrow> int" where
  "year_search d y = (if DayFromYear (y + 1) \<le> d then year_search d (y + 1) else y)"
  by pat_completeness auto

termination
proof (relation "measure (\<lambda>(d, y). nat (d + 1 - DayFromYear (y + 1)))")
  show "wf (measure (\<lambda>(d, y). nat (d + 1 - DayFromYear (y + 1))))"
    by simp
next
  fix d y :: int
  assume "DayFromYear (y + 1) \<le> d"
  moreover have "DayFromYear (y + 1) < DayFromYear (y + 1 + 1)"
    by (rule DayFromYear_less)
  ultimately show "((d, y + 1), (d, y)) \<in> measure (\<lambda>(d, y). nat (d + 1 - DayFromYear (y + 1)))"
    by simp
qed

definition YearFromDay :: "int \<Rightarrow> int" where
  "YearFromDay d = year_search d (1970 + (if 0 \<le> d then d div 366 else d div 365))"

text \<open>The number of days of the year before month \<open>m\<close> (0 is January).\<close>

definition month_start :: "bool \<Rightarrow> int \<Rightarrow> int" where
  "month_start leap m =
     (let l = (if leap then 1 else 0) in
      if m \<le> 0 then 0 else if m = 1 then 31 else if m = 2 then 59 + l
      else if m = 3 then 90 + l else if m = 4 then 120 + l else if m = 5 then 151 + l
      else if m = 6 then 181 + l else if m = 7 then 212 + l else if m = 8 then 243 + l
      else if m = 9 then 273 + l else if m = 10 then 304 + l else 334 + l)"

definition MonthFromDay :: "bool \<Rightarrow> int \<Rightarrow> int" where
  "MonthFromDay leap n =
     (if n < month_start leap 1 then 0 else if n < month_start leap 2 then 1
      else if n < month_start leap 3 then 2 else if n < month_start leap 4 then 3
      else if n < month_start leap 5 then 4 else if n < month_start leap 6 then 5
      else if n < month_start leap 7 then 6 else if n < month_start leap 8 then 7
      else if n < month_start leap 9 then 8 else if n < month_start leap 10 then 9
      else if n < month_start leap 11 then 10 else 11)"

text \<open>MakeDay for a month in \<open>0..11\<close>; a day beyond the month's end runs into the next month.\<close>

definition MakeDay :: "int \<Rightarrow> int \<Rightarrow> int \<Rightarrow> int" where
  "MakeDay y m dt = DayFromYear y + month_start (InLeapYear y) m + dt - 1"

definition MakeTime :: "int \<Rightarrow> int \<Rightarrow> int \<Rightarrow> int \<Rightarrow> int" where
  "MakeTime h mi s ms = h * 3600000 + mi * 60000 + s * 1000 + ms"

definition two_digits :: "nat \<Rightarrow> string" where
  "two_digits n = [digit_char (n div 10 mod 10), digit_char (n mod 10)]"

definition three_digits :: "nat \<Rightarrow> string" where
  "three_digits n = digit_char (n div 100 mod 10) # two_digits n"

definition four_digits :: "nat \<Rightarrow> string" where
  "four_digits n = digit_char (n div 1000 mod 10) # three_digits n"

definition six_digits :: "nat \<Rightarrow> string" where
  "six_digits n = digit_char (n div 100000 mod 10) # digit_char (n div 10000 mod 10) # four_digits n"

definition iso_year :: "int \<Rightarrow> string" where
  "iso_year y =
     (if 0 \<le> y \<and> y \<le> 9999 then four_digits (nat y)
      else if 0 \<le> y then CHR ''+'' # six_digits (nat y)
      else CHR ''-'' # six_digits (nat (- y)))"

text \<open>
  \<^verbatim>\<open>toISOString\<close> of a valid time value: \<^verbatim>\<open>YYYY-MM-DDTHH:mm:ss.sssZ\<close>, with a sign and
  six digits for a year outside \<open>0..9999\<close>.
\<close>

definition iso_string :: "int \<Rightarrow> string" where
  "iso_string t =
     (let d = t div msPerDay; r = t mod msPerDay; y = YearFromDay d;
          n = d - DayFromYear y; m = MonthFromDay (InLeapYear y) n;
          dt = n - month_start (InLeapYear y) m + 1
      in iso_year y @
         CHR ''-'' # two_digits (nat (m + 1)) @
         CHR ''-'' # two_digits (nat dt) @
         CHR ''T'' # two_digits (nat (r div 3600000)) @
         CHR '':'' # two_digits (nat (r div 60000 mod 60)) @
         CHR '':'' # two_digits (nat (r div 1000 mod 60)) @
         CHR ''.'' # three_digits (nat (r mod 1000)) @ ''Z'')"

definition num_field :: "string \<Rightarrow> int option" where
  "num_field s = (if all_digits s then Some (int (digits_value 0 s)) else None)"

text \<open>The part of an ISO string after the year: \<^verbatim>\<open>-MM-DDTHH:mm:ss.sssZ\<close>.\<close>

definition parse_after_year :: "int \<Rightarrow> string \<Rightarrow> int option" where
  "parse_after_year y r =
     (if length r = 20 \<and> r ! 0 = CHR ''-'' \<and> r ! 3 = CHR ''-'' \<and> r ! 6 = CHR ''T''
         \<and> r ! 9 = CHR '':'' \<and> r ! 12 = CHR '':'' \<and> r ! 15 = CHR ''.'' \<and> r ! 19 = CHR ''Z''
      then
        (case (num_field (take 2 (drop 1 r)), num_field (take 2 (drop 4 r)),
               num_field (take 2 (drop 7 r)), num_field (take 2 (drop 10 r)),
               num_field (take 2 (drop 13 r)), num_field (take 3 (drop 16 r))) of
           (Some mo, Some dt, Some h, Some mi, Some s, Some ms) \<Rightarrow>
             if 1 \<le> mo \<and> mo \<le> 12 \<and> 1 \<le> dt \<and> dt \<le> 31 \<and> mi \<le> 59 \<and> s \<le> 59
                \<and> (h \<le> 23 \<or> (h = 24 \<and> mi = 0 \<and> s = 0 \<and> ms = 0))
             then TimeClip (MakeDay y (mo - 1) dt * msPerDay + MakeTime h mi s ms)
             else None
         | _ \<Rightarrow> None)
      else None)"

text \<open>
  \<^verbatim>\<open>Date.parse\<close> on the format \<^verbatim>\<open>toISOString\<close> writes.  What an engine makes of any
  other string (shorter ISO forms, local times, offsets, its legacy formats) is not
  modelled: such a string reads as the Invalid Date here, and no theorem below rests
  on that.
\<close>

definition Date_parse :: "string \<Rightarrow> int option" where
  "Date_parse s =
     (case s of
        [] \<Rightarrow> None
      | c # cs \<Rightarrow>
          if c = CHR ''+'' \<or> c = CHR ''-'' then
            (case num_field (take 6 cs) of
               None \<Rightarrow> None
             | Some y \<Rightarrow>
                 if length cs < 6 \<or> (c = CHR ''-'' \<and> y = 0) then None
                 else parse_after_year (if c = CHR ''-'' then - y else y) (drop 6 cs))
          else
            (case num_field (take 4 s) of
               None \<Rightarrow> None
             | Some y \<Rightarrow> if length s < 4 then None else parse_after_year y (drop 4 s)))"

subsection \<open>JavaScript values and their conversions\<close>

text \<open>
  The values a document field, a token or a field of a returned record can hold.
  \<open>Undefined\<close> also stands for a field that is absent; \<open>ObjectId h\<close> is the driver's
  identifier object, \<open>h\<close> its 24 hexadecimal digits.
\<close>

datatype jsval = Undefined | Null | Bool bool | Num int | Str string | ObjectId string

datatype error =
    ConnectionError  \<comment> \<open>\<^verbatim>\<open>client.connect()\<close> rejected\<close>
  | DriverError      \<comment> \<open>a collection operation rejected\<close>
  | DuplicateKey     \<comment> \<open>an insert with an \<^verbatim>\<open>_id\<close> the collection already holds\<close>
  | RangeError       \<comment> \<open>\<^verbatim>\<open>toISOString\<close> of the Invalid Date\<close>
  | BSONError        \<comment> \<open>the ObjectId constructor refused its argument\<close>
  | IOError          \<comment> \<open>a file could not be written\<close>

fun truthy :: "jsval \<Rightarrow> bool" where
  "truthy Undefined = False"
| "truthy Null = False"
| "truthy (Bool b) = b"
| "truthy (Num n) = (n \<noteq> 0)"
| "truthy (Str s) = (s \<noteq> [])"
| "truthy (ObjectId h) = True"

text \<open>\<^verbatim>\<open>a || b\<close>.\<close>

definition js_or :: "jsval \<Rightarrow> jsval \<Rightarrow> jsval" where
  "js_or a b = (if truthy a then a else b)"

text \<open>\<^verbatim>\<open>String(v)\<close>, which is also \<^verbatim>\<open>v.toString()\<close> where \<open>v\<close> has that method.\<close>

fun String_of :: "jsval \<Rightarrow> string" where
  "String_of Undefined = ''undefined''"
| "String_of Null = ''null''"
| "String_of (Bool b) = (if b then ''true'' else ''false'')"
| "String_of (Num n) = string_of_int n"
| "String_of (Str s) = s"
| "String_of (ObjectId h) = h"

text \<open>
  \<^verbatim>\<open>Number(s)\<close> of a string: white space is trimmed, the empty string is 0, an
  optionally signed run of digits is its value; anything else is \<open>NaN\<close> (a literal with
  a fraction, an exponent or a radix prefix has no reading in a model of integers).
\<close>

definition StringToNumber :: "string \<Rightarrow> int option" where
  "StringToNumber s =
     (let r = trim s in
      if r = [] then Some 0
      else if all_digits r then Some (int (digits_value 0 r))
      else if hd r = CHR ''-'' \<and> all_digits (tl r) then Some (- int (digits_value 0 (tl r)))
      else if hd r = CHR ''+'' \<and> all_digits (tl r) then Some (int (digits_value 0 (tl r)))
      else None)"

fun Number_of :: "jsval \<Rightarrow> int option" where
  "Number_of Undefined = None"
| "Number_of Null = Some 0"
| "Number_of (Bool b) = Some (if b then 1 else 0)"
| "Number_of (Num n) = Some n"
| "Number_of (Str s) = StringToNumber s"
| "Number_of (ObjectId h) = StringToNumber h"

text \<open>\<^verbatim>\<open>new Date(v)\<close>: a string is parsed, any other value is its number, clipped.\<close>

fun new_Date :: "jsval \<Rightarrow> int option" where
  "new_Date (Str s) = Date_parse s"
| "new_Date (ObjectId h) = Date_parse h"
| "new_Date v = (case Number_of v of None \<Rightarrow> None | Some n \<Rightarrow> TimeClip n)"

text \<open>\<^verbatim>\<open>date.toISOString()\<close> throws a RangeError on the Invalid Date.\<close>

definition toISOString :: "int option \<Rightarrow> error + string" where
  "toISOString d = (case d of None \<Rightarrow> Inl RangeError | Some t \<Rightarrow> Inr (iso_string t))"

subsection \<open>Documents and the public shape\<close>

text \<open>
  A document of the collection, by the fields the program reads: \<^verbatim>\<open>_id\<close>, \<^verbatim>\<open>id\<close>,
  \<^verbatim>\<open>userID\<close>, \<^verbatim>\<open>name\<close>, \<^verbatim>\<open>value\<close>, \<^verbatim>\<open>createdAt\<close>, \<^verbatim>\<open>updatedAt\<close>.
\<close>

record doc =
  d_id :: jsval
  d_alt_id :: jsval
  d_userID :: jsval
  d_name :: jsval
  d_value :: jsval
  d_createdAt :: jsval
  d_updatedAt :: jsval

text \<open>The object \<^verbatim>\<open>toPublic\<close> returns.\<close>

record public =
  p_id :: jsval
  p_userID :: jsval
  p_name :: jsval
  p_value :: jsval
  p_created :: jsval
  p_createdAt :: jsval
  p_updatedAt :: jsval
  p_updated :: jsval

text \<open>
  \<^verbatim>\<open>toPublic(doc)\<close>; \<open>None\<close> is a \<^verbatim>\<open>null\<close> or absent document.  The \<^verbatim>\<open>try\<close> around
  \<^verbatim>\<open>doc._id.toString()\<close> has no failing branch on the values of \<open>jsval\<close>.
\<close>

definition toPublic :: "doc option \<Rightarrow> error + public option" where
  "toPublic dopt =
     (case dopt of
        None \<Rightarrow> Inr None
      | Some d \<Rightarrow>
          let ident = (if truthy (d_id d) then Str (String_of (d_id d))
                    else if truthy (d_alt_id d) then Str (String_of (d_alt_id d))
                    else Null);
              created = (if truthy (d_createdAt d) then Str (take 10 (String_of (d_createdAt d))) else Null);
              createdAtISO = js_or (d_createdAt d) Null;
              updatedAtISO = js_or (d_updatedAt d) Null
          in case (if truthy updatedAtISO
                   then (case toISOString (new_Date updatedAtISO) of
                           Inl e \<Rightarrow> Inl e
                         | Inr s \<Rightarrow> Inr (Str (before_dot (replace_first CHR ''T'' CHR '' '' s))))
                   else Inr Null) of
               Inl e \<Rightarrow> Inl e
             | Inr updated \<Rightarrow>
                 Inr (Some \<lparr>p_id = ident, p_userID = js_or (d_userID d) Null, p_name = d_name d,
                            p_value = d_value d, p_created = created, p_createdAt = createdAtISO,
                            p_updatedAt = updatedAtISO, p_updated = updated\<rparr>))"

text \<open>An object with none of the fields \<^verbatim>\<open>toPublic\<close> reads.\<close>

definition doc_blank :: doc where
  "doc_blank =
     \<lparr>d_id = Undefined, d_alt_id = Undefined, d_userID = Undefined, d_name = Undefined,
      d_value = Undefined, d_createdAt = Undefined, d_updatedAt = Undefined\<rparr>"

text \<open>
  The bytes of an ObjectId, from its hexadecimal digits, and their text: the \<^verbatim>\<open>id\<close> of
  an ObjectId is the buffer of its twelve bytes, and \<^verbatim>\<open>String\<close> of a buffer is its
  content read as text.  (The engine reads it as UTF-8; here every byte stands as the
  character of its code, which is the same text for bytes below 0x80.)
\<close>

definition hex_val :: "char \<Rightarrow> nat" where
  "hex_val c = (case digit_val c of Some k \<Rightarrow> k | None \<Rightarrow> of_char (lower_char c) - 87)"

fun hex_bytes :: "string \<Rightarrow> nat list" where
  "hex_bytes (a # b # cs) = (16 * hex_val a + hex_val b) # hex_bytes cs"
| "hex_bytes cs = []"

definition buffer_text :: "string \<Rightarrow> string" where
  "buffer_text h = map char_of (hex_bytes h)"

text \<open>
  What \<^verbatim>\<open>toPublic\<close> reads when it is handed the value of a field instead of a
  document: a string, a number and a boolean have none of the fields it asks for; an
  ObjectId has an \<^verbatim>\<open>id\<close>, the buffer of its bytes.
\<close>

fun fields_of :: "jsval \<Rightarrow> doc" where
  "fields_of (ObjectId h) = doc_blank\<lparr>d_alt_id := Str (buffer_text h)\<rparr>"
| "fields_of v = doc_blank"

subsection \<open>Identifier resolution\<close>

text \<open>
  The three queries \<^verbatim>\<open>getQueryFromId\<close> builds: \<^verbatim>\<open>{ userID: n }\<close>,
  \<^verbatim>\<open>{ _id: ObjectId }\<close> and \<^verbatim>\<open>{ _id: { $exists: false } }\<close>.
\<close>

datatype query = By_userID int | By_id string | No_id

fun matches :: "query \<Rightarrow> doc \<Rightarrow> bool" where
  "matches (By_userID n) d = (d_userID d = Num n)"
| "matches (By_id h) d = (d_id d = ObjectId h)"
| "matches No_id d = (d_id d = Undefined)"

definition is_hex :: "char \<Rightarrow> bool" where
  "is_hex c = (is_digit c \<or> c \<in> set ''abcdefABCDEF'')"

text \<open>
  \<^verbatim>\<open>new ObjectId(s)\<close> on a string: 24 hexadecimal digits, read without regard to
  case; any other string is refused with an exception.
\<close>

definition new_ObjectId :: "string \<Rightarrow> error + string" where
  "new_ObjectId s = (if length s = 24 \<and> list_all is_hex s then Inr (toLowerCase s) else Inl BSONError)"

definition getQueryFromId :: "jsval \<Rightarrow> query" where
  "getQueryFromId tok =
     (if tok = Undefined \<or> tok = Null then No_id
      else case tok of
        Num n \<Rightarrow> By_userID n
      | _ \<Rightarrow>
          let s = trim (String_of tok) in
          if length s = 0 then No_id
          else if all_digits s then By_userID (int (digits_value 0 s))
          else (case new_ObjectId s of Inr h \<Rightarrow> By_id h | Inl e \<Rightarrow> No_id))"

subsection \<open>The collection and the world\<close>

text \<open>
  The module's variables (\<^verbatim>\<open>client\<close>, \<^verbatim>\<open>collection\<close>, \<^verbatim>\<open>staticUserId\<close>) together
  with what the program acts on: the documents of the \<^verbatim>\<open>records\<close> collection in
  store order, the events emitted on \<^verbatim>\<open>vaultEvents\<close>, the backup files, the lines of
  \<^verbatim>\<open>console.error\<close>.  Two fields only observe: \<open>backup_calls\<close> counts the calls of
  \<^verbatim>\<open>createBackup\<close>, and \<open>assigned\<close> lists the \<^verbatim>\<open>userID\<close>s of the documents inserted,
  oldest first.
\<close>

record export =
  e_id :: jsval
  e_userID :: jsval
  e_name :: jsval
  e_value :: jsval
  e_createdAt :: jsval

record state =
  client :: bool
  collection :: bool
  staticUserId :: int
  records :: "doc list"
  emitted :: "(string \<times> public option) list"
  backups :: "(string \<times> export list) list"
  console_error :: "string list"
  backup_calls :: nat
  assigned :: "int list"

text \<open>
  What the world answers during one call of the interface: whether each driver or file
  operation succeeds, the clock readings, and the \<^verbatim>\<open>_id\<close> the driver generates for an
  inserted document.  \<open>includeResultMetadata\<close> is the driver's default for the option of
  that name, which the program does not pass and which decides what
  \<^verbatim>\<open>findOneAndUpdate\<close> and \<^verbatim>\<open>findOneAndDelete\<close> resolve to: it is true up to version
  5 of the driver and false from version 6, and nothing in the sources of the
  repository fixes the version.
\<close>

record world =
  connect_ok :: bool
  scan_ok :: bool
  insert_ok :: bool
  findOne_ok :: bool
  findOneAndUpdate_ok :: bool
  findOneAndDelete_ok :: bool
  includeResultMetadata :: bool
  find_ok :: bool
  backup_find_ok :: bool
  writeFile_ok :: bool
  now :: int
  backup_now :: int
  fresh_id :: string

text \<open>The state of a process that has just loaded the module, over a store holding \<open>ds\<close>.\<close>

definition process_start :: "doc list \<Rightarrow> state" where
  "process_start ds =
     \<lparr>client = False, collection = False, staticUserId = 1, records = ds, emitted = [],
      backups = [], console_error = [], backup_calls = 0, assigned = []\<rparr>"

text \<open>The driver writes \<^verbatim>\<open>undefined\<close> as \<^verbatim>\<open>null\<close>.\<close>

definition bson :: "jsval \<Rightarrow> jsval" where
  "bson v = (if v = Undefined then Null else v)"

text \<open>The order in which the store sorts values of different types, and within a type.\<close>

fun bson_rank :: "jsval \<Rightarrow> nat" where
  "bson_rank Undefined = 0"
| "bson_rank Null = 1"
| "bson_rank (Num n) = 2"
| "bson_rank (Str s) = 3"
| "bson_rank (ObjectId h) = 7"
| "bson_rank (Bool b) = 8"

fun str_less :: "string \<Rightarrow> string \<Rightarrow> bool" where
  "str_less [] ys = (ys \<noteq> [])"
| "str_less (x # xs) [] = False"
| "str_less (x # xs) (y # ys) = ((of_char x :: nat) < of_char y \<or> (x = y \<and> str_less xs ys))"

fun bson_less :: "jsval \<Rightarrow> jsval \<Rightarrow> bool" where
  "bson_less (Num a) (Num b) = (a < b)"
| "bson_less (Str a) (Str b) = str_less a b"
| "bson_less (ObjectId a) (ObjectId b) = str_less a b"
| "bson_less (Bool a) (Bool b) = (\<not> a \<and> b)"
| "bson_less a b = (bson_rank a < bson_rank b)"

text \<open>
  \<^verbatim>\<open>find({ userID: { $exists: true } }).sort({ userID: -1 }).limit(1)\<close>, read at
  \<^verbatim>\<open>[0].userID\<close>: the greatest \<^verbatim>\<open>userID\<close> among the documents that have the field.
\<close>

fun top_userID :: "doc list \<Rightarrow> jsval option" where
  "top_userID [] = None"
| "top_userID (d # ds) =
     (if d_userID d = Undefined then top_userID ds
      else case top_userID ds of
             None \<Rightarrow> Some (d_userID d)
           | Some v \<Rightarrow> if bson_less (d_userID d) v then Some v else Some (d_userID d))"

definition insertOne :: "world \<Rightarrow> doc \<Rightarrow> doc list \<Rightarrow> error + doc list" where
  "insertOne w d ds =
     (if \<not> insert_ok w then Inl DriverError
      else if list_ex (\<lambda>e. d_id e = d_id d) ds then Inl DuplicateKey
      else Inr (ds @ [d]))"

definition findOne :: "world \<Rightarrow> query \<Rightarrow> doc list \<Rightarrow> error + doc option" where
  "findOne w q ds = (if findOne_ok w then Inr (find (matches q) ds) else Inl DriverError)"

fun update_first :: "(doc \<Rightarrow> bool) \<Rightarrow> (doc \<Rightarrow> doc) \<Rightarrow> doc list \<Rightarrow> doc list" where
  "update_first P f [] = []"
| "update_first P f (d # ds) = (if P d then f d # ds else d # update_first P f ds)"

fun remove_first :: "(doc \<Rightarrow> bool) \<Rightarrow> doc list \<Rightarrow> doc list" where
  "remove_first P [] = []"
| "remove_first P (d # ds) = (if P d then ds else d # remove_first P ds)"

text \<open>
  What \<^verbatim>\<open>findOneAndUpdate\<close> and \<^verbatim>\<open>findOneAndDelete\<close> resolve to.  With
  \<^verbatim>\<open>includeResultMetadata\<close> it is a result object whose \<^verbatim>\<open>value\<close> is the document, or
  \<^verbatim>\<open>null\<close> when no document matches; without, it is the document itself, or \<^verbatim>\<open>null\<close>.
\<close>

datatype modify_result = ModifyResult "doc option" | Document "doc option"

definition resolve :: "world \<Rightarrow> doc option \<Rightarrow> modify_result" where
  "resolve w found = (if includeResultMetadata w then ModifyResult found else Document found)"

text \<open>
  \<^verbatim>\<open>findOneAndUpdate(query, { $set: ... }, { returnDocument: 'after' })\<close> and
  \<^verbatim>\<open>findOneAndDelete(query)\<close> act on the first document the query matches; the pair is
  what the call resolves to (with the document after the update, or as removed) and
  the new contents of the collection.
\<close>

definition findOneAndUpdate ::
    "world \<Rightarrow> query \<Rightarrow> (doc \<Rightarrow> doc) \<Rightarrow> doc list \<Rightarrow> error + (modify_result \<times> doc list)" where
  "findOneAndUpdate w q f ds =
     (if findOneAndUpdate_ok w
      then Inr (resolve w (map_option f (find (matches q) ds)), update_first (matches q) f ds)
      else Inl DriverError)"

definition findOneAndDelete ::
    "world \<Rightarrow> query \<Rightarrow> doc list \<Rightarrow> error + (modify_result \<times> doc list)" where
  "findOneAndDelete w q ds =
     (if findOneAndDelete_ok w
      then Inr (resolve w (find (matches q) ds), remove_first (matches q) ds)
      else Inl DriverError)"

text \<open>
  \<^verbatim>\<open>res.value\<close> as the program reads it after \<^verbatim>\<open>if (!res || !res.value) return null\<close>:
  \<open>None\<close> when the guard returns, otherwise the object that is handed to \<^verbatim>\<open>toPublic\<close>.
  On a result object that is the document.  On a document it is the document's own
  \<^verbatim>\<open>value\<close> field: the guard returns when that field is falsy, and \<^verbatim>\<open>toPublic\<close> gets
  the field's value when it is not.
\<close>

fun res_value :: "modify_result \<Rightarrow> doc option" where
  "res_value (ModifyResult found) = found"
| "res_value (Document None) = None"
| "res_value (Document (Some d)) = (if truthy (d_value d) then Some (fields_of (d_value d)) else None)"

subsection \<open>The record store\<close>

text \<open>
  \<^verbatim>\<open>ensureConnection\<close>.  \<^verbatim>\<open>ensureBackupDir\<close>, which it awaits last, creates a
  directory and swallows every error: it changes nothing of the state and is left out.
  The lines of \<^verbatim>\<open>console.log\<close> are left out as well.
\<close>

definition ensureConnection :: "world \<Rightarrow> state \<Rightarrow> (error + unit) \<times> state" where
  "ensureConnection w s =
     (if collection s then (Inr (), s)
      else if \<not> client s \<and> \<not> connect_ok w then
        (Inl ConnectionError,
         s\<lparr>client := True,
           console_error := console_error s @
             [''Failed to connect to MongoDB with MONGO_URI:'',
              ''Check that MongoDB is running and the URI is correct (host, port, auth).'',
              ''Example for Compass-local DB: mongodb://localhost:27017/scd_Project'']\<rparr>)
      else
        let s1 = s\<lparr>client := True, collection := True\<rparr> in
        (Inr (),
         if scan_ok w then
           (case top_userID (records s1) of
              Some (Num maxVal) \<Rightarrow> s1\<lparr>staticUserId := maxVal + 1\<rparr>
            | _ \<Rightarrow> s1)
         else s1))"

definition init :: "world \<Rightarrow> state \<Rightarrow> (error + unit) \<times> state" where
  "init w s = ensureConnection w s"

definition close :: "state \<Rightarrow> state" where
  "close s = (if client s then s\<lparr>client := False, collection := False\<rparr> else s)"

text \<open>\<^verbatim>\<open>try { vaultEvents.emit(name, out); } catch (e) { }\<close>.\<close>

definition emit :: "string \<Rightarrow> public option \<Rightarrow> state \<Rightarrow> state" where
  "emit name out s = s\<lparr>emitted := emitted s @ [(name, out)]\<rparr>"

definition export_doc :: "doc \<Rightarrow> export" where
  "export_doc d =
     \<lparr>e_id = (if truthy (d_id d) then Str (String_of (d_id d)) else Null),
      e_userID = js_or (d_userID d) Null, e_name = js_or (d_name d) Null,
      e_value = js_or (d_value d) Null, e_createdAt = js_or (d_createdAt d) Null\<rparr>"

text \<open>
  \<^verbatim>\<open>s.replace(/\..+/, '')\<close>: the first dot that has a character of its line after it
  is removed with the rest of that line.
\<close>

definition line_end :: "char \<Rightarrow> bool" where
  "line_end c = (c = CHR 0x0A \<or> c = CHR 0x0D)"

fun cut_at_dot :: "string \<Rightarrow> string" where
  "cut_at_dot [] = []"
| "cut_at_dot (c # cs) =
     (if c = CHR ''.'' \<and> cs \<noteq> [] \<and> \<not> line_end (hd cs) then dropWhile (\<lambda>x. \<not> line_end x) cs
      else c # cut_at_dot cs)"

definition backup_filename :: "int \<Rightarrow> string" where
  "backup_filename t =
     ''backup_'' @ cut_at_dot (map (\<lambda>c. if c = CHR '':'' then CHR ''-'' else c) (iso_string t)) @ ''.json''"

definition writeFile :: "string \<Rightarrow> 'a \<Rightarrow> (string \<times> 'a) list \<Rightarrow> (string \<times> 'a) list" where
  "writeFile path content files = (path, content) # filter (\<lambda>f. fst f \<noteq> path) files"

text \<open>The \<^verbatim>\<open>try\<close> block of \<^verbatim>\<open>createBackup\<close>.\<close>

definition backup_body :: "world \<Rightarrow> state \<Rightarrow> error + state" where
  "backup_body w s =
     (if \<not> backup_find_ok w then Inl DriverError
      else
        let exportDocs = map export_doc (records s);
            filePath = backup_filename (backup_now w)
        in if \<not> writeFile_ok w then Inl IOError
           else Inr (s\<lparr>backups := writeFile filePath exportDocs (backups s)\<rparr>))"

definition createBackup :: "world \<Rightarrow> state \<Rightarrow> (error + unit) \<times> state" where
  "createBackup w s0 =
     (let s = s0\<lparr>backup_calls := Suc (backup_calls s0)\<rparr> in
      case (if \<not> collection s then ensureConnection w s else (Inr (), s)) of
        (Inl e, s1) \<Rightarrow>
          (Inr (), s1\<lparr>console_error := console_error s1 @ [''Backup: failed to ensure DB connection:'']\<rparr>)
      | (Inr u, s1) \<Rightarrow>
          (case backup_body w s1 of
             Inr s2 \<Rightarrow> (Inr (), s2)
           | Inl err \<Rightarrow>
               (Inr (), s1\<lparr>console_error := console_error s1 @ [''Failed to create backup:'']\<rparr>)))"

definition addRecord :: "jsval \<Rightarrow> jsval \<Rightarrow> world \<Rightarrow> state \<Rightarrow> (error + public option) \<times> state" where
  "addRecord name val w s =
     (case ensureConnection w s of
        (Inl e, s1) \<Rightarrow> (Inl e, s1)
      | (Inr u, s1) \<Rightarrow>
          let userID = staticUserId s1;
              s2 = s1\<lparr>staticUserId := userID + 1\<rparr>;
              createdAt = iso_string (now w);
              d = \<lparr>d_id = ObjectId (fresh_id w), d_alt_id = Undefined, d_userID = Num userID,
                   d_name = bson name, d_value = bson val, d_createdAt = Str createdAt,
                   d_updatedAt = Undefined\<rparr>
          in case insertOne w d (records s2) of
               Inl e \<Rightarrow> (Inl e, s2)
             | Inr ds \<Rightarrow>
                 let s3 = s2\<lparr>records := ds, assigned := assigned s2 @ [userID]\<rparr> in
                 (case findOne w (By_id (fresh_id w)) ds of
                    Inl e \<Rightarrow> (Inl e, s3)
                  | Inr found \<Rightarrow>
                      (case toPublic found of
                         Inl e \<Rightarrow> (Inl e, s3)
                       | Inr out \<Rightarrow>
                           let s4 = emit ''recordAdded'' out s3 in
                           (case createBackup w s4 of (r, s5) \<Rightarrow> (Inr out, s5)))))"

fun toPublic_all :: "doc list \<Rightarrow> error + public option list" where
  "toPublic_all [] = Inr []"
| "toPublic_all (d # ds) =
     (case toPublic (Some d) of
        Inl e \<Rightarrow> Inl e
      | Inr p \<Rightarrow> (case toPublic_all ds of Inl e \<Rightarrow> Inl e | Inr ps \<Rightarrow> Inr (p # ps)))"

definition listRecords :: "world \<Rightarrow> state \<Rightarrow> (error + public option list) \<times> state" where
  "listRecords w s =
     (case ensureConnection w s of
        (Inl e, s1) \<Rightarrow> (Inl e, s1)
      | (Inr u, s1) \<Rightarrow>
          if find_ok w then (toPublic_all (records s1), s1) else (Inl DriverError, s1))"

definition updateRecord ::
    "jsval \<Rightarrow> jsval \<Rightarrow> jsval \<Rightarrow> world \<Rightarrow> state \<Rightarrow> (error + public option) \<times> state" where
  "updateRecord tok newName newValue w s =
     (case ensureConnection w s of
        (Inl e, s1) \<Rightarrow> (Inl e, s1)
      | (Inr u, s1) \<Rightarrow>
          let query = getQueryFromId tok;
              updatedAt = iso_string (now w)
          in case findOneAndUpdate w query
                    (\<lambda>d. d\<lparr>d_name := bson newName, d_value := bson newValue,
                            d_updatedAt := Str updatedAt\<rparr>) (records s1) of
               Inl e \<Rightarrow> (Inl e, s1)
             | Inr (res, ds) \<Rightarrow>
                 let s2 = s1\<lparr>records := ds\<rparr> in
                 if res_value res = None then (Inr None, s2)
                 else (case toPublic (res_value res) of
                         Inl e \<Rightarrow> (Inl e, s2)
                       | Inr out \<Rightarrow> (Inr out, emit ''recordUpdated'' out s2)))"

definition deleteRecord :: "jsval \<Rightarrow> world \<Rightarrow> state \<Rightarrow> (error + public option) \<times> state" where
  "deleteRecord tok w s =
     (case ensureConnection w s of
        (Inl e, s1) \<Rightarrow> (Inl e, s1)
      | (Inr u, s1) \<Rightarrow>
          let query = getQueryFromId tok in
          case findOneAndDelete w query (records s1) of
            Inl e \<Rightarrow> (Inl e, s1)
          | Inr (res, ds) \<Rightarrow>
              let s2 = s1\<lparr>records := ds\<rparr> in
              if res_value res = None then (Inr None, s2)
              else (case toPublic (res_value res) of
                      Inl e \<Rightarrow> (Inl e, s2)
                    | Inr out \<Rightarrow>
                        let s3 = emit ''recordDeleted'' out s2 in
                        (case createBackup w s3 of (r, s4) \<Rightarrow> (Inr out, s4))))"

text \<open>
  A call of the interface while the connection lasts, and a run of such calls, each in
  the world of its moment.  \<^verbatim>\<open>close\<close> ends a run: the call after it connects and seeds
  the counter again.
\<close>

datatype call =
    Init
  | AddRecord jsval jsval
  | ListRecords
  | UpdateRecord jsval jsval jsval
  | DeleteRecord jsval

fun exec :: "call \<Rightarrow> world \<Rightarrow> state \<Rightarrow> state" where
  "exec Init w s = snd (init w s)"
| "exec (AddRecord name val) w s = snd (addRecord name val w s)"
| "exec ListRecords w s = snd (listRecords w s)"
| "exec (UpdateRecord tok name val) w s = snd (updateRecord tok name val w s)"
| "exec (DeleteRecord tok) w s = snd (deleteRecord tok w s)"

fun run :: "(call \<times> world) list \<Rightarrow> state \<Rightarrow> state" where
  "run [] s = s"
| "run ((c, w) # cs) s = run cs (exec c w s)"

subsection \<open>The shell's search\<close>

text \<open>
  Menu case 2.  The answer is trimmed; an empty keyword is refused with a message and
  nothing is searched (\<open>None\<close>).  Otherwise the records of \<^verbatim>\<open>listRecords\<close> are filtered
  by three tests, in this order: the keyword is all digits and is the \<^verbatim>\<open>userID\<close>; the
  \<^verbatim>\<open>id\<close> contains the keyword; the \<^verbatim>\<open>name\<close> contains the keyword (both without regard
  to case).
\<close>

text \<open>\<^verbatim>\<open>Number(a) === Number(b)\<close>: \<open>NaN\<close> equals nothing.\<close>

definition number_eq :: "int option \<Rightarrow> int option \<Rightarrow> bool" where
  "number_eq a b = (case (a, b) of (Some x, Some y) \<Rightarrow> x = y | _ \<Rightarrow> False)"

definition userID_matches :: "string \<Rightarrow> public \<Rightarrow> bool" where
  "userID_matches kw r = (all_digits kw \<and> number_eq (Number_of (p_userID r)) (Number_of (Str kw)))"

definition id_contains :: "string \<Rightarrow> public \<Rightarrow> bool" where
  "id_contains kw r =
     str_includes (toLowerCase (String_of (js_or (p_id r) (Str '''')))) (toLowerCase kw)"

definition name_contains :: "string \<Rightarrow> public \<Rightarrow> bool" where
  "name_contains kw r =
     str_includes (toLowerCase (String_of (js_or (p_name r) (Str '''')))) (toLowerCase kw)"

definition search_match :: "string \<Rightarrow> public option \<Rightarrow> bool" where
  "search_match kw ropt =
     (case ropt of
        None \<Rightarrow> False
      | Some r \<Rightarrow>
          if userID_matches kw r then True
          else if id_contains kw r then True
          else if name_contains kw r then True
          else False)"

definition search :: "string \<Rightarrow> public option list \<Rightarrow> public option list option" where
  "search answer rs =
     (let kw = trim answer in if kw = [] then None else Some (filter (search_match kw) rs))"

subsection \<open>The activity logger\<close>

text \<open>
  The logger module asks the record store's module for an \<^verbatim>\<open>emitter\<close> and subscribes to
  it only when there is one.  \<open>db_exports\<close> are the names \<^verbatim>\<open>src/db/index.js\<close> assigns to
  \<^verbatim>\<open>module.exports\<close>.  A subscription is the event name with the label of its line.
\<close>

definition db_exports :: "string list" where
  "db_exports = [''init'', ''close'', ''addRecord'', ''listRecords'', ''updateRecord'', ''deleteRecord'']"

definition logger_subscriptions :: "string list \<Rightarrow> (string \<times> string) list" where
  "logger_subscriptions exports =
     (if ''emitter'' \<in> set exports
      then [(''add'', ''ADD''), (''update'', ''UPDATE''), (''delete'', ''DELETE'')]
      else [])"

text \<open>\<^verbatim>\<open>writeLog\<close>: the line that is appended to the log file and shown on the console.\<close>

definition writeLog :: "int \<Rightarrow> string \<Rightarrow> string" where
  "writeLog ts line = ''['' @ iso_string ts @ ''] '' @ line"

definition log_line :: "string \<Rightarrow> public \<Rightarrow> string" where
  "log_line label rec = label @ '' id='' @ String_of (p_id rec) @ '' name='' @ String_of (p_name rec)"

text \<open>
  What the subscriptions write for one emitted event, and for the events of a state:
  a listener runs when its event name is the emitted one.
\<close>

definition deliver :: "(string \<times> string) list \<Rightarrow> int \<Rightarrow> string \<times> public option \<Rightarrow> string list" where
  "deliver subs ts ev =
     (case snd ev of
        None \<Rightarrow> []
      | Some rec \<Rightarrow> map (\<lambda>sub. writeLog ts (log_line (snd sub) rec)) (filter (\<lambda>sub. fst sub = fst ev) subs))"

definition activity_log :: "int \<Rightarrow> state \<Rightarrow> string list" where
  "activity_log ts s = concat (map (deliver (logger_subscriptions db_exports) ts) (emitted s))"

section \<open>Notions for the statements, and worked examples\<close>

text \<open>
  What holds of the counter in every state a process reaches while its connection
  lasts: the identifiers handed out so far are in increasing order and all below the
  counter, and none has been handed out before the collection was opened.
\<close>

definition counter_inv :: "state \<Rightarrow> bool" where
  "counter_inv s =
     (sorted_wrt (<) (assigned s) \<and> list_all (\<lambda>x. x < staticUserId s) (assigned s)
      \<and> (collection s \<or> assigned s = []))"

text \<open>
  A world in which every operation succeeds, with a driver of version 6 or later, for
  the worked examples; and the same world with a driver up to version 5.
\<close>

definition world_ok :: world where
  "world_ok =
     \<lparr>connect_ok = True, scan_ok = True, insert_ok = True, findOne_ok = True,
      findOneAndUpdate_ok = True, findOneAndDelete_ok = True, includeResultMetadata = False,
      find_ok = True,
      backup_find_ok = True, writeFile_ok = True, now = 1762041600123,
      backup_now = 1762041600456, fresh_id = ''507f1f77bcf86cd799439011''\<rparr>"

definition world_v5 :: world where
  "world_v5 = world_ok\<lparr>includeResultMetadata := True\<rparr>"

text \<open>The state of a fresh process over an empty store after one successful \<^verbatim>\<open>addRecord\<close>.\<close>

definition state_one :: state where
  "state_one = snd (addRecord (Str ''A'') (Str ''1'') world_ok (process_start []))"

text \<open>The record that \<^verbatim>\<open>addRecord\<close> returned.\<close>

definition public_one :: public where
  "public_one =
     \<lparr>p_id = Str ''507f1f77bcf86cd799439011'', p_userID = Num 1, p_name = Str ''A'',
      p_value = Str ''1'', p_created = Str ''2025-11-02'',
      p_createdAt = Str ''2025-11-02T00:00:00.123Z'', p_updatedAt = Null, p_updated = Null\<rparr>"

text \<open>A token that is neither absent nor a number is read through its string.\<close>

definition textual :: "jsval \<Rightarrow> bool" where
  "textual tok = (case tok of Undefined \<Rightarrow> False | Null \<Rightarrow> False | Num n \<Rightarrow> False | _ \<Rightarrow> True)"

text \<open>The document that \<open>state_one\<close> holds.\<close>

definition doc_one :: doc where
  "doc_one =
     \<lparr>d_id = ObjectId ''507f1f77bcf86cd799439011'', d_alt_id = Undefined, d_userID = Num 1,
      d_name = Str ''A'', d_value = Str ''1'', d_createdAt = Str ''2025-11-02T00:00:00.123Z'',
      d_updatedAt = Undefined\<rparr>"






text \<open>The text after the year, as \<open>iso_string\<close> writes it.\<close>

definition after_year :: "nat \<Rightarrow> nat \<Rightarrow> nat \<Rightarrow> nat \<Rightarrow> nat \<Rightarrow> nat \<Rightarrow> string" where
  "after_year mo dt h mi s ms =
     CHR ''-'' # two_digits mo @ CHR ''-'' # two_digits dt @ CHR ''T'' # two_digits h @
     CHR '':'' # two_digits mi @ CHR '':'' # two_digits s @ CHR ''.'' # three_digits ms @ ''Z''"

text \<open>The time values of the years 0000 to 9999, which are written with four digits.\<close>

definition four_digit_years :: "int \<Rightarrow> bool" where
  "four_digit_years t = (- 62167219200000 \<le> t \<and> t < 253402300800000)"

text \<open>The time stamp \<open>a\<close> is strictly before the time stamp \<open>b\<close>, both read as dates.\<close>

definition date_before :: "jsval \<Rightarrow> jsval \<Rightarrow> bool" where
  "date_before a b = (case (new_Date a, new_Date b) of (Some x, Some y) \<Rightarrow> x < y | _ \<Rightarrow> False)"

text \<open>
  What an update of the record of \<open>state_one\<close> returns a second and a third after its
  creation, and what the same update returns within the millisecond of its creation.
\<close>

definition public_later :: public where
  "public_later =
     \<lparr>p_id = Str ''507f1f77bcf86cd799439011'', p_userID = Num 1, p_name = Str ''B'',
      p_value = Str ''2'', p_created = Str ''2025-11-02'',
      p_createdAt = Str ''2025-11-02T00:00:00.123Z'',
      p_updatedAt = Str ''2025-11-02T00:00:01.456Z'', p_updated = Str ''2025-11-02 00:00:01''\<rparr>"

definition public_same :: public where
  "public_same =
     \<lparr>p_id = Str ''507f1f77bcf86cd799439011'', p_userID = Num 1, p_name = Str ''B'',
      p_value = Str ''2'', p_created = Str ''2025-11-02'',
      p_createdAt = Str ''2025-11-02T00:00:00.123Z'',
      p_updatedAt = Str ''2025-11-02T00:00:00.123Z'', p_updated = Str ''2025-11-02 00:00:00''\<rparr>"

text \<open>The value converts to a valid date.\<close>

definition valid_date :: "jsval \<Rightarrow> bool" where
  "valid_date v = (new_Date v \<noteq> None)"

text \<open>
  A document as this program writes it, but with a number beyond the range of time
  values for \<^verbatim>\<open>updatedAt\<close>.
\<close>

definition doc_bad_date :: doc where
  "doc_bad_date = doc_one\<lparr>d_updatedAt := Num 8640000000000001\<rparr>"

text \<open>The public shape of an object that has none of the fields.\<close>

definition public_blank :: public where
  "public_blank =
     \<lparr>p_id = Null, p_userID = Null, p_name = Undefined, p_value = Undefined, p_created = Null,
      p_createdAt = Null, p_updatedAt = Null, p_updated = Null\<rparr>"

text \<open>
  The same process when the record is added with an empty value, and the document it
  then holds.
\<close>

definition state_empty_value :: state where
  "state_empty_value = snd (addRecord (Str ''A'') (Str '''') world_ok (process_start []))"

definition doc_empty_value :: doc where
  "doc_empty_value = doc_one\<lparr>d_value := Str ''''\<rparr>"

text \<open>The document of \<open>state_one\<close> after that update.\<close>

definition doc_later :: doc where
  "doc_later = doc_one\<lparr>d_name := Str ''B'', d_value := Str ''2'',
     d_updatedAt := Str ''2025-11-02T00:00:01.456Z''\<rparr>"

section \<open>The userID counter\<close>

lemma ensureConnection_connected: "collection s \<Longrightarrow> ensureConnection w s = (Inr (), s)"
  by (simp add: ensureConnection_def)

lemma ensureConnection_collection:
  "collection (snd (ensureConnection w s)) = (collection s \<or> fst (ensureConnection w s) = Inr ())"
  by (auto simp: ensureConnection_def Let_def split: option.splits jsval.splits)

lemma ensureConnection_frame:
  "assigned (snd (ensureConnection w s)) = assigned s"
  "records (snd (ensureConnection w s)) = records s"
  "emitted (snd (ensureConnection w s)) = emitted s"
  "backups (snd (ensureConnection w s)) = backups s"
  "backup_calls (snd (ensureConnection w s)) = backup_calls s"
  by (auto simp: ensureConnection_def Let_def split: option.splits jsval.splits)

lemma createBackup_connected:
  assumes "collection s"
  shows "fst (createBackup w s) = Inr ()"
    and "collection (snd (createBackup w s))"
    and "staticUserId (snd (createBackup w s)) = staticUserId s"
    and "assigned (snd (createBackup w s)) = assigned s"
    and "records (snd (createBackup w s)) = records s"
    and "emitted (snd (createBackup w s)) = emitted s"
    and "backup_calls (snd (createBackup w s)) = Suc (backup_calls s)"
  using assms by (auto simp: createBackup_def backup_body_def Let_def)

lemma ensureConnection_inv: "counter_inv s \<Longrightarrow> counter_inv (snd (ensureConnection w s))"
  by (auto simp: counter_inv_def ensureConnection_def Let_def split: option.splits jsval.splits)

lemma createBackup_connectedD:
  assumes "createBackup w s = (r, s')" and "collection s"
  shows "r = Inr () \<and> collection s' \<and> staticUserId s' = staticUserId s \<and> assigned s' = assigned s
         \<and> records s' = records s \<and> emitted s' = emitted s \<and> backup_calls s' = Suc (backup_calls s)"
  using createBackup_connected[OF assms(2), of w] assms(1) by simp

lemma ensureConnection_InrD:
  assumes "ensureConnection w s = (Inr u, s1)"
  shows "collection s1 \<and> assigned s1 = assigned s \<and> records s1 = records s \<and> emitted s1 = emitted s
         \<and> backup_calls s1 = backup_calls s"
  using ensureConnection_collection[of w s] ensureConnection_frame[of w s] assms by simp

lemma sorted_wrt_snoc_less:
  "sorted_wrt (<) xs \<Longrightarrow> list_all (\<lambda>x. x < k) xs \<Longrightarrow> sorted_wrt (<) (xs @ [k])" for k :: int
  by (auto simp: sorted_wrt_append list_all_iff)

lemma list_all_less_mono:
  "list_all (\<lambda>x. x < k) xs \<Longrightarrow> k \<le> k' \<Longrightarrow> list_all (\<lambda>x. x < k') xs" for k :: int
  by (auto simp: list_all_iff)

lemma addRecord_inv: "counter_inv s \<Longrightarrow> counter_inv (snd (addRecord name val w s))"
proof -
  assume inv: "counter_inv s"
  obtain r s1 where ec: "ensureConnection w s = (r, s1)"
    by (cases "ensureConnection w s")
  from inv have inv1: "counter_inv s1"
    using ensureConnection_inv[of s w] ec by simp
  show ?thesis
  proof (cases r)
    case (Inl e)
    with ec inv1 show ?thesis
      by (simp add: addRecord_def)
  next
    case (Inr u)
    with ec have c1: "collection s1"
      using ensureConnection_InrD by blast
    from inv1 have srt: "sorted_wrt (<) (assigned s1 @ [staticUserId s1])"
      and all: "list_all (\<lambda>x. x < staticUserId s1 + 1) (assigned s1 @ [staticUserId s1])"
      and all0: "list_all (\<lambda>x. x < staticUserId s1 + 1) (assigned s1)"
      using sorted_wrt_snoc_less[of "assigned s1" "staticUserId s1"]
        list_all_less_mono[of "staticUserId s1" "assigned s1" "staticUserId s1 + 1"]
      by (simp_all add: counter_inv_def)
    show ?thesis
      using ec Inr c1 srt all all0 inv1
      by (auto simp: addRecord_def Let_def counter_inv_def emit_def
          split: sum.splits prod.splits dest!: createBackup_connectedD)
  qed
qed

lemma updateRecord_frame:
  "staticUserId (snd (updateRecord tok n v w s)) = staticUserId (snd (ensureConnection w s))"
  "assigned (snd (updateRecord tok n v w s)) = assigned s"
  "collection (snd (updateRecord tok n v w s)) = collection (snd (ensureConnection w s))"
  "backup_calls (snd (updateRecord tok n v w s)) = backup_calls s"
  "backups (snd (updateRecord tok n v w s)) = backups s"
  using ensureConnection_frame[of w s]
  by (auto simp: updateRecord_def Let_def emit_def split: sum.splits prod.splits)

lemma listRecords_frame:
  "staticUserId (snd (listRecords w s)) = staticUserId (snd (ensureConnection w s))"
  "assigned (snd (listRecords w s)) = assigned s"
  "collection (snd (listRecords w s)) = collection (snd (ensureConnection w s))"
  using ensureConnection_frame[of w s]
  by (auto simp: listRecords_def split: sum.splits prod.splits)

lemma deleteRecord_frame:
  "staticUserId (snd (deleteRecord tok w s)) = staticUserId (snd (ensureConnection w s))"
  "assigned (snd (deleteRecord tok w s)) = assigned s"
  "collection (snd (deleteRecord tok w s)) = collection (snd (ensureConnection w s))"
proof -
  obtain r s1 where ec: "ensureConnection w s = (r, s1)"
    by (cases "ensureConnection w s")
  show "staticUserId (snd (deleteRecord tok w s)) = staticUserId (snd (ensureConnection w s))"
    "assigned (snd (deleteRecord tok w s)) = assigned s"
    "collection (snd (deleteRecord tok w s)) = collection (snd (ensureConnection w s))"
    using ec ensureConnection_frame[of w s] ensureConnection_collection[of w s]
    by (auto simp: deleteRecord_def Let_def emit_def
        split: sum.splits prod.splits dest!: createBackup_connectedD)
qed

lemma counter_inv_cong:
  "staticUserId s' = staticUserId s \<Longrightarrow> assigned s' = assigned s \<Longrightarrow> collection s' = collection s
   \<Longrightarrow> counter_inv s' = counter_inv s"
  by (simp add: counter_inv_def)

lemma exec_inv: "counter_inv s \<Longrightarrow> counter_inv (exec c w s)"
proof (cases c)
  case Init
  assume "counter_inv s"
  then show ?thesis
    using Init ensureConnection_inv[of s w] by (simp add: init_def)
next
  case (AddRecord n v)
  assume "counter_inv s"
  then show ?thesis
    using AddRecord addRecord_inv[of s n v w] by simp
next
  case ListRecords
  assume "counter_inv s"
  then show ?thesis
    using ListRecords ensureConnection_inv[of s w] ensureConnection_frame[of w s]
      counter_inv_cong[of "snd (listRecords w s)" "snd (ensureConnection w s)"]
    by (simp add: listRecords_frame)
next
  case (UpdateRecord tok n v)
  assume "counter_inv s"
  then show ?thesis
    using UpdateRecord ensureConnection_inv[of s w] ensureConnection_frame[of w s]
      counter_inv_cong[of "snd (updateRecord tok n v w s)" "snd (ensureConnection w s)"]
    by (simp add: updateRecord_frame)
next
  case (DeleteRecord tok)
  assume "counter_inv s"
  then show ?thesis
    using DeleteRecord ensureConnection_inv[of s w] ensureConnection_frame[of w s]
      counter_inv_cong[of "snd (deleteRecord tok w s)" "snd (ensureConnection w s)"]
    by (simp add: deleteRecord_frame)
qed

lemma run_inv: "counter_inv s \<Longrightarrow> counter_inv (run cs s)"
  by (induction cs arbitrary: s) (auto simp: exec_inv)

lemma process_start_inv: "counter_inv (process_start ds)"
  by (simp add: counter_inv_def process_start_def)

text \<open>
  Claim C1, as the code has it.  In a process that starts with the module freshly
  loaded, over any store and through any run of \<^verbatim>\<open>init\<close>, \<^verbatim>\<open>addRecord\<close>,
  \<^verbatim>\<open>listRecords\<close>, \<^verbatim>\<open>updateRecord\<close> and \<^verbatim>\<open>deleteRecord\<close> calls, whatever the world
  answers to each, the \<^verbatim>\<open>userID\<close>s given to the inserted documents are strictly
  increasing in the order of insertion: each is greater than all earlier ones,
  deletions in between or not, and none is given twice.  This is for as long as the
  connection lasts; what a \<^verbatim>\<open>close\<close> in between does is the example after the theorem.
\<close>

theorem userID_strictly_increasing:
  "sorted_wrt (<) (assigned (run cs (process_start ds))) \<and> distinct (assigned (run cs (process_start ds)))"
proof -
  have "counter_inv (run cs (process_start ds))"
    by (rule run_inv[OF process_start_inv])
  then have "sorted_wrt (<) (assigned (run cs (process_start ds)))"
    by (simp add: counter_inv_def)
  then show ?thesis
    by (simp add: strict_sorted_iff)
qed

text \<open>
  Two records are added, the second is deleted, the connection is closed, a third is
  added: the new connection seeds the counter from the one record left, and the third
  record gets the \<^verbatim>\<open>userID\<close> the second had.
\<close>

theorem reconnect_reuses_userID:
  "assigned
     (snd (addRecord (Str ''C'') (Str ''3'') (world_ok\<lparr>fresh_id := ''507f1f77bcf86cd799439013''\<rparr>)
        (close (run [(AddRecord (Str ''A'') (Str ''1''), world_ok),
                     (AddRecord (Str ''B'') (Str ''2''),
                      world_ok\<lparr>fresh_id := ''507f1f77bcf86cd799439012''\<rparr>),
                     (DeleteRecord (Num 2), world_ok)]
                 (process_start []))))) = [1, 2, 2]"
  by code_simp

section \<open>A failed insert\<close>

lemma iso_string_nonempty: "iso_string t \<noteq> []"
  by (simp add: iso_string_def Let_def)

lemma createBackup_calls: "backup_calls (snd (createBackup w s)) = Suc (backup_calls s)"
proof (cases "collection s")
  case True
  then show ?thesis
    by (simp add: createBackup_connected)
next
  case False
  obtain r s1 where ec: "ensureConnection w (s\<lparr>backup_calls := Suc (backup_calls s)\<rparr>) = (r, s1)"
    by (cases "ensureConnection w (s\<lparr>backup_calls := Suc (backup_calls s)\<rparr>)")
  then have "backup_calls s1 = Suc (backup_calls s)"
    using ensureConnection_frame(5)[of w "s\<lparr>backup_calls := Suc (backup_calls s)\<rparr>"] by simp
  with False ec show ?thesis
    by (auto simp: createBackup_def backup_body_def Let_def split: sum.splits)
qed

lemma addRecord_connected:
  assumes "collection s"
  shows "collection (snd (addRecord n v w s))"
    and "staticUserId (snd (addRecord n v w s)) = staticUserId s + 1"
    and "assigned (snd (addRecord n v w s)) = assigned s
         \<or> assigned (snd (addRecord n v w s)) = assigned s @ [staticUserId s]"
  using assms
  by (auto simp: addRecord_def ensureConnection_connected Let_def emit_def
      split: sum.splits prod.splits dest!: createBackup_connectedD)

lemma exec_connected:
  assumes "collection s"
  shows "collection (exec c w s)"
    and "staticUserId s \<le> staticUserId (exec c w s)"
    and "list_all (\<lambda>x. x \<in> set (assigned s) \<or> staticUserId s \<le> x) (assigned (exec c w s))"
proof -
  have ec: "ensureConnection w s = (Inr (), s)"
    using assms by (rule ensureConnection_connected)
  show "collection (exec c w s)"
    using assms ec addRecord_connected(1)[OF assms]
    by (cases c) (simp_all add: init_def listRecords_frame updateRecord_frame deleteRecord_frame)
  show "staticUserId s \<le> staticUserId (exec c w s)"
    using assms ec addRecord_connected(2)[OF assms]
    by (cases c) (simp_all add: init_def listRecords_frame updateRecord_frame deleteRecord_frame)
  show "list_all (\<lambda>x. x \<in> set (assigned s) \<or> staticUserId s \<le> x) (assigned (exec c w s))"
  proof (cases c)
    case (AddRecord n v)
    then show ?thesis
      using addRecord_connected(3)[OF assms, of n v w] by (auto simp: list_all_iff)
  qed (simp_all add: ec init_def listRecords_frame updateRecord_frame deleteRecord_frame list_all_iff)
qed

lemma run_connected:
  "collection s \<Longrightarrow>
   list_all (\<lambda>x. x \<in> set (assigned s) \<or> staticUserId s \<le> x) (assigned (run cs s))"
proof (induction cs arbitrary: s)
  case Nil
  then show ?case
    by (simp add: list_all_iff)
next
  case (Cons cw cs)
  obtain c w where cw: "cw = (c, w)"
    by (cases cw)
  have "list_all (\<lambda>x. x \<in> set (assigned (exec c w s)) \<or> staticUserId (exec c w s) \<le> x)
          (assigned (run cs (exec c w s)))"
    using Cons.IH[of "exec c w s"] exec_connected(1)[OF Cons.prems] by simp
  then show ?case
    using exec_connected(2,3)[OF Cons.prems, of c w] cw
    by (fastforce simp: list_all_iff)
qed

text \<open>
  Claim C10, as the code has it.  \<^verbatim>\<open>addRecord\<close> takes the next \<^verbatim>\<open>userID\<close> before it
  tries to persist.  In any state a process reaches, when the connection is there and
  the insert is rejected, \<^verbatim>\<open>addRecord\<close> raises, nothing is stored, the counter stands
  one beyond the identifier the failed call took, and no later call gives that
  identifier to a record for as long as the connection lasts.  After a \<^verbatim>\<open>close\<close> the
  identifier can come back, as the last example of this section shows.
\<close>

theorem failed_insert_skips_userID:
  assumes reach: "s = run pre (process_start ds)"
    and conn: "fst (ensureConnection w s) = Inr ()"
    and fail: "\<not> insert_ok w"
  shows "fst (addRecord name val w s) = Inl DriverError
       \<and> staticUserId (snd (addRecord name val w s)) = staticUserId (snd (ensureConnection w s)) + 1
       \<and> records (snd (addRecord name val w s)) = records s
       \<and> staticUserId (snd (ensureConnection w s))
             \<notin> set (assigned (run post (snd (addRecord name val w s))))"
proof -
  obtain s1 where ec: "ensureConnection w s = (Inr (), s1)"
    using conn by (cases "ensureConnection w s") auto
  define s' where "s' = snd (addRecord name val w s)"
  have inv1: "counter_inv s1"
    using ensureConnection_inv[of s w] run_inv[OF process_start_inv, of pre ds] reach ec by simp
  have c1: "collection s1" and r1: "records s1 = records s"
    using ensureConnection_InrD[OF ec] by simp_all
  have add: "addRecord name val w s = (Inl DriverError, s1\<lparr>staticUserId := staticUserId s1 + 1\<rparr>)"
    using ec fail by (simp add: addRecord_def insertOne_def Let_def)
  have "collection s'"
    by (simp add: s'_def add c1)
  then have "list_all (\<lambda>x. x \<in> set (assigned s') \<or> staticUserId s' \<le> x) (assigned (run post s'))"
    by (rule run_connected)
  moreover have "list_all (\<lambda>x. x < staticUserId s1) (assigned s')"
    using inv1 by (simp add: s'_def add counter_inv_def)
  ultimately have "staticUserId s1 \<notin> set (assigned (run post s'))"
    by (auto simp: list_all_iff s'_def add)
  then show ?thesis
    by (simp add: s'_def add ec r1)
qed

theorem failed_insert_skips_userID_witness:
  "fst (ensureConnection (world_ok\<lparr>insert_ok := False\<rparr>) (run [] (process_start []))) = Inr ()
   \<and> \<not> insert_ok (world_ok\<lparr>insert_ok := False\<rparr>)
   \<and> fst (addRecord (Str ''A'') (Str ''1'') (world_ok\<lparr>insert_ok := False\<rparr>) (run [] (process_start [])))
       = Inl DriverError
   \<and> staticUserId (snd (addRecord (Str ''A'') (Str ''1'') (world_ok\<lparr>insert_ok := False\<rparr>)
         (run [] (process_start [])))) = 2
   \<and> 1 \<notin> set (assigned (run [(AddRecord (Str ''B'') (Str ''2''), world_ok)]
         (snd (addRecord (Str ''A'') (Str ''1'') (world_ok\<lparr>insert_ok := False\<rparr>)
           (run [] (process_start []))))))"
proof -
  have h1: "fst (ensureConnection (world_ok\<lparr>insert_ok := False\<rparr>) (run [] (process_start []))) = Inr ()"
    by (simp add: ensureConnection_def process_start_def world_ok_def)
  have h2: "\<not> insert_ok (world_ok\<lparr>insert_ok := False\<rparr>)"
    by simp
  have h3: "staticUserId (snd (ensureConnection (world_ok\<lparr>insert_ok := False\<rparr>) (run [] (process_start [])))) = 1"
    by (simp add: ensureConnection_def process_start_def world_ok_def)
  show ?thesis
    using failed_insert_skips_userID[OF refl h1 h2, of "Str ''A''" "Str ''1''"
        "[(AddRecord (Str ''B'') (Str ''2''), world_ok)]"] h1 h2 h3
    by simp
qed

text \<open>
  After one record, an insert is rejected and takes the \<^verbatim>\<open>userID\<close> 2 with it; the
  connection is closed; the next record, over a new connection, gets 2.
\<close>

theorem reconnect_assigns_skipped_userID:
  "fst (addRecord (Str ''B'') (Str ''2'') (world_ok\<lparr>insert_ok := False\<rparr>) state_one) = Inl DriverError
   \<and> staticUserId (snd (ensureConnection (world_ok\<lparr>insert_ok := False\<rparr>) state_one)) = 2
   \<and> staticUserId (snd (addRecord (Str ''B'') (Str ''2'') (world_ok\<lparr>insert_ok := False\<rparr>) state_one)) = 3
   \<and> assigned
        (snd (addRecord (Str ''C'') (Str ''3'') (world_ok\<lparr>fresh_id := ''507f1f77bcf86cd799439013''\<rparr>)
           (close (snd (addRecord (Str ''B'') (Str ''2'') (world_ok\<lparr>insert_ok := False\<rparr>)
              state_one))))) = [1, 2]"
  by code_simp

section \<open>Adding a record\<close>

lemma find_snoc_new: "\<not> list_ex P xs \<Longrightarrow> find P (xs @ [x]) = (if P x then Some x else None)"
  by (induction xs) auto

text \<open>What a successful \<^verbatim>\<open>addRecord\<close> returns, and the state it leaves before the backup.\<close>

lemma addRecord_success:
  assumes ec: "ensureConnection w s = (Inr (), s1)"
    and ok: "insert_ok w" "findOne_ok w"
    and fresh: "\<not> list_ex (\<lambda>e. d_id e = ObjectId (fresh_id w)) (records s)"
  shows "addRecord n v w s =
    (Inr (Some \<lparr>p_id = Str (fresh_id w), p_userID = js_or (Num (staticUserId s1)) Null,
                p_name = bson n, p_value = bson v,
                p_created = Str (take 10 (iso_string (now w))),
                p_createdAt = Str (iso_string (now w)), p_updatedAt = Null, p_updated = Null\<rparr>),
     snd (createBackup w
       (emit ''recordAdded''
          (Some \<lparr>p_id = Str (fresh_id w), p_userID = js_or (Num (staticUserId s1)) Null,
                 p_name = bson n, p_value = bson v,
                 p_created = Str (take 10 (iso_string (now w))),
                 p_createdAt = Str (iso_string (now w)), p_updatedAt = Null, p_updated = Null\<rparr>)
          (s1\<lparr>staticUserId := staticUserId s1 + 1,
              records := records s @
                [\<lparr>d_id = ObjectId (fresh_id w), d_alt_id = Undefined,
                  d_userID = Num (staticUserId s1), d_name = bson n, d_value = bson v,
                  d_createdAt = Str (iso_string (now w)), d_updatedAt = Undefined\<rparr>],
              assigned := assigned s @ [staticUserId s1]\<rparr>))))"
proof -
  have r1: "records s1 = records s" and a1: "assigned s1 = assigned s"
    using ensureConnection_InrD[OF ec] by simp_all
  have m: "matches (By_id (fresh_id w)) = (\<lambda>e. d_id e = ObjectId (fresh_id w))"
    by (rule ext) simp
  have f: "find (matches (By_id (fresh_id w))) (records s @ [d]) =
             (if d_id d = ObjectId (fresh_id w) then Some d else None)" for d
    using fresh by (simp add: m find_snoc_new)
  show ?thesis
    using ok fresh
    by (simp add: addRecord_def ec r1 a1 insertOne_def findOne_def f toPublic_def
        Let_def js_or_def iso_string_nonempty split: prod.splits)
qed

section \<open>Backups\<close>

lemma res_value_resolve:
  "res_value (resolve w None) = None"
  "includeResultMetadata w \<Longrightarrow> res_value (resolve w (Some d)) = Some d"
  "\<not> includeResultMetadata w \<Longrightarrow>
     res_value (resolve w (Some d)) = (if truthy (d_value d) then Some (fields_of (d_value d)) else None)"
  by (simp_all add: resolve_def)

lemma backup_calls_emit: "backup_calls (emit name out s) = backup_calls s"
  by (simp add: emit_def)

lemma addRecord_backup_calls:
  "backup_calls (snd (addRecord n v w s)) =
     (case fst (addRecord n v w s) of Inl e \<Rightarrow> backup_calls s | Inr out \<Rightarrow> Suc (backup_calls s))"
proof -
  obtain r s1 where ec: "ensureConnection w s = (r, s1)"
    by (cases "ensureConnection w s")
  have b1: "backup_calls s1 = backup_calls s"
    using ensureConnection_frame(5)[of w s] ec by simp
  have cb: "createBackup w x = (r', y) \<Longrightarrow> backup_calls y = Suc (backup_calls x)" for x r' y
    using createBackup_calls[of w x] by simp
  show ?thesis
    using ec b1
    by (auto simp: addRecord_def Let_def backup_calls_emit split: sum.splits prod.splits dest!: cb)
qed

lemma deleteRecord_backup_calls:
  "backup_calls (snd (deleteRecord tok w s)) =
     (case fst (deleteRecord tok w s) of
        Inr (Some r) \<Rightarrow> Suc (backup_calls s)
      | _ \<Rightarrow> backup_calls s)"
proof -
  obtain r s1 where ec: "ensureConnection w s = (r, s1)"
    by (cases "ensureConnection w s")
  have b1: "backup_calls s1 = backup_calls s"
    using ensureConnection_frame(5)[of w s] ec by simp
  have cb: "createBackup w x = (r', y) \<Longrightarrow> backup_calls y = Suc (backup_calls x)" for x r' y
    using createBackup_calls[of w x] by simp
  have tp: "toPublic (Some d) \<noteq> Inr None" for d
    by (simp add: toPublic_def Let_def split: sum.splits)
  show ?thesis
    using ec b1 tp
    by (auto simp: deleteRecord_def Let_def backup_calls_emit
        split: sum.splits prod.splits option.splits dest!: cb)
qed

lemma find_None_frame:
  "find P ds = None \<Longrightarrow> remove_first P ds = ds \<and> update_first P f ds = ds"
  by (induction ds) (auto split: if_splits)

lemma deleteRecord_no_match:
  assumes "find (matches (getQueryFromId tok)) (records s) = None"
  shows "fst (deleteRecord tok w s) \<noteq> Inr (Some r)"
    and "records (snd (deleteRecord tok w s)) = records s"
proof -
  obtain r0 s1 where ec: "ensureConnection w s = (r0, s1)"
    by (cases "ensureConnection w s")
  have r1: "records s1 = records s"
    using ensureConnection_frame(2)[of w s] ec by simp
  show "fst (deleteRecord tok w s) \<noteq> Inr (Some r)"
    using ec r1 assms
    by (auto simp: deleteRecord_def findOneAndDelete_def Let_def res_value_resolve split: sum.splits)
  show "records (snd (deleteRecord tok w s)) = records s"
    using ec r1 assms find_None_frame[OF assms]
    by (auto simp: deleteRecord_def findOneAndDelete_def Let_def res_value_resolve split: sum.splits)
qed

lemma deleteRecord_records:
  assumes "fst (ensureConnection w s) = Inr ()" and "findOneAndDelete_ok w"
  shows "records (snd (deleteRecord tok w s)) = remove_first (matches (getQueryFromId tok)) (records s)"
proof -
  obtain s1 where ec: "ensureConnection w s = (Inr (), s1)"
    using assms(1) by (cases "ensureConnection w s") auto
  have r1: "records s1 = records s" and c1: "collection s1"
    using ensureConnection_InrD[OF ec] by simp_all
  show ?thesis
    using assms(2) c1
    by (auto simp: deleteRecord_def ec r1 findOneAndDelete_def Let_def emit_def
        split: sum.splits prod.splits dest!: createBackup_connectedD)
qed

lemma updateRecord_records:
  assumes "fst (ensureConnection w s) = Inr ()" and "findOneAndUpdate_ok w"
  shows "records (snd (updateRecord tok n v w s)) =
     update_first (matches (getQueryFromId tok))
       (\<lambda>d. d\<lparr>d_name := bson n, d_value := bson v, d_updatedAt := Str (iso_string (now w))\<rparr>)
       (records s)"
proof -
  obtain s1 where ec: "ensureConnection w s = (Inr (), s1)"
    using assms(1) by (cases "ensureConnection w s") auto
  have r1: "records s1 = records s"
    using ensureConnection_InrD[OF ec] by simp
  show ?thesis
    using assms(2)
    by (auto simp: updateRecord_def ec r1 findOneAndUpdate_def Let_def emit_def
        split: sum.splits prod.splits)
qed

lemma toPublic_returns:
  "\<not> truthy (d_updatedAt d) \<or> valid_date (d_updatedAt d) \<Longrightarrow> \<exists>r. toPublic (Some d) = Inr (Some r)"
  by (auto simp: toPublic_def Let_def js_or_def valid_date_def toISOString_def
      split: option.splits sum.splits)

lemma toPublic_fields_of_eq:
  "toPublic (Some (fields_of v)) =
     Inr (Some (public_blank\<lparr>p_id := (if truthy (d_alt_id (fields_of v))
                                       then Str (String_of (d_alt_id (fields_of v))) else Null)\<rparr>))"
  by (cases v) (simp_all add: toPublic_def doc_blank_def public_blank_def js_or_def Let_def)

lemma toPublic_fields_of: "\<exists>r. toPublic (Some (fields_of v)) = Inr (Some r)"
  by (rule toPublic_returns) (cases v; simp add: doc_blank_def)

lemma deleteRecord_found:
  assumes conn: "fst (ensureConnection w s) = Inr ()"
    and drv: "findOneAndDelete_ok w"
    and found: "find (matches (getQueryFromId tok)) (records s) = Some d"
  shows "fst (deleteRecord tok w s) =
           (case res_value (resolve w (Some d)) of None \<Rightarrow> Inr None | Some x \<Rightarrow> toPublic (Some x))"
proof -
  obtain s1 where ec: "ensureConnection w s = (Inr (), s1)"
    using conn by (cases "ensureConnection w s") auto
  have r1: "records s1 = records s"
    using ensureConnection_InrD[OF ec] by simp
  show ?thesis
    using drv found
    by (auto simp: deleteRecord_def ec r1 findOneAndDelete_def Let_def
        split: sum.splits prod.splits option.splits)
qed

text \<open>
  Claim C4 does not hold of the code on a driver that resolves to the document.
  \<^verbatim>\<open>createBackup\<close> is called once by every \<^verbatim>\<open>addRecord\<close> that returns, and so by every
  one whose connection, insert and read-back succeed; it is called by no
  \<^verbatim>\<open>updateRecord\<close>, and by no \<^verbatim>\<open>deleteRecord\<close> whose query matches no document (which
  removes nothing).  A \<^verbatim>\<open>deleteRecord\<close> calls it exactly when it returns a record.  When
  the query matches and \<open>d\<close> is the first match, \<open>d\<close> is removed, and then: on a result
  object the call returns what \<^verbatim>\<open>toPublic\<close> makes of \<open>d\<close>, with a backup whenever
  \<^verbatim>\<open>updatedAt\<close> is absent or a valid date; on a document, the program reads the record's
  own \<^verbatim>\<open>value\<close> field for the result, so there is a backup when that field is truthy,
  and when it is falsy (an empty string, say) the record is removed, \<^verbatim>\<open>null\<close> is
  returned and there is no backup.
\<close>

theorem backup_on_add_and_delete:
  "(fst (addRecord n v w s) = Inr out \<longrightarrow>
      backup_calls (snd (addRecord n v w s)) = Suc (backup_calls s))
   \<and> (fst (ensureConnection w s) = Inr () \<and> insert_ok w \<and> findOne_ok w
        \<and> \<not> list_ex (\<lambda>e. d_id e = ObjectId (fresh_id w)) (records s) \<longrightarrow>
      backup_calls (snd (addRecord n v w s)) = Suc (backup_calls s))
   \<and> backup_calls (snd (updateRecord tok n v w s)) = backup_calls s
   \<and> backups (snd (updateRecord tok n v w s)) = backups s
   \<and> backup_calls (snd (deleteRecord tok w s)) =
        (case fst (deleteRecord tok w s) of
           Inr (Some r) \<Rightarrow> Suc (backup_calls s)
         | _ \<Rightarrow> backup_calls s)
   \<and> (find (matches (getQueryFromId tok)) (records s) = None \<longrightarrow>
        backup_calls (snd (deleteRecord tok w s)) = backup_calls s
        \<and> records (snd (deleteRecord tok w s)) = records s)
   \<and> (fst (ensureConnection w s) = Inr () \<and> findOneAndDelete_ok w
        \<and> find (matches (getQueryFromId tok)) (records s) = Some d \<longrightarrow>
        records (snd (deleteRecord tok w s)) = remove_first (matches (getQueryFromId tok)) (records s)
        \<and> (includeResultMetadata w \<longrightarrow>
             fst (deleteRecord tok w s) = toPublic (Some d)
             \<and> (\<not> truthy (d_updatedAt d) \<or> valid_date (d_updatedAt d) \<longrightarrow>
                  backup_calls (snd (deleteRecord tok w s)) = Suc (backup_calls s)))
        \<and> (\<not> includeResultMetadata w \<and> truthy (d_value d) \<longrightarrow>
             fst (deleteRecord tok w s) = toPublic (Some (fields_of (d_value d)))
             \<and> backup_calls (snd (deleteRecord tok w s)) = Suc (backup_calls s))
        \<and> (\<not> includeResultMetadata w \<and> \<not> truthy (d_value d) \<longrightarrow>
             fst (deleteRecord tok w s) = Inr None
             \<and> backup_calls (snd (deleteRecord tok w s)) = backup_calls s))"
proof -
  have a: "fst (addRecord n v w s) = Inr out \<longrightarrow>
      backup_calls (snd (addRecord n v w s)) = Suc (backup_calls s)"
    by (simp add: addRecord_backup_calls)
  have a2: "fst (ensureConnection w s) = Inr () \<and> insert_ok w \<and> findOne_ok w
        \<and> \<not> list_ex (\<lambda>e. d_id e = ObjectId (fresh_id w)) (records s) \<longrightarrow>
      backup_calls (snd (addRecord n v w s)) = Suc (backup_calls s)"
  proof
    assume h: "fst (ensureConnection w s) = Inr () \<and> insert_ok w \<and> findOne_ok w
        \<and> \<not> list_ex (\<lambda>e. d_id e = ObjectId (fresh_id w)) (records s)"
    then obtain s1 where ec: "ensureConnection w s = (Inr (), s1)"
      by (cases "ensureConnection w s") auto
    have "\<exists>r. fst (addRecord n v w s) = Inr r"
      using h by (simp add: addRecord_success[OF ec])
    then show "backup_calls (snd (addRecord n v w s)) = Suc (backup_calls s)"
      by (auto simp: addRecord_backup_calls)
  qed
  have u: "backup_calls (snd (updateRecord tok n v w s)) = backup_calls s"
    "backups (snd (updateRecord tok n v w s)) = backups s"
    by (simp_all add: updateRecord_frame)
  have d0: "backup_calls (snd (deleteRecord tok w s)) =
        (case fst (deleteRecord tok w s) of
           Inr (Some r) \<Rightarrow> Suc (backup_calls s)
         | _ \<Rightarrow> backup_calls s)"
    by (rule deleteRecord_backup_calls)
  have d3: "find (matches (getQueryFromId tok)) (records s) = None \<longrightarrow>
      backup_calls (snd (deleteRecord tok w s)) = backup_calls s
      \<and> records (snd (deleteRecord tok w s)) = records s"
  proof
    assume nm: "find (matches (getQueryFromId tok)) (records s) = None"
    then have "\<And>r. fst (deleteRecord tok w s) \<noteq> Inr (Some r)"
      by (rule deleteRecord_no_match(1))
    then have "backup_calls (snd (deleteRecord tok w s)) = backup_calls s"
      by (simp add: deleteRecord_backup_calls split: sum.splits option.splits)
    then show "backup_calls (snd (deleteRecord tok w s)) = backup_calls s
      \<and> records (snd (deleteRecord tok w s)) = records s"
      using deleteRecord_no_match(2)[OF nm] by simp
  qed
  have d4: "fst (ensureConnection w s) = Inr () \<and> findOneAndDelete_ok w
        \<and> find (matches (getQueryFromId tok)) (records s) = Some d \<longrightarrow>
        records (snd (deleteRecord tok w s)) = remove_first (matches (getQueryFromId tok)) (records s)
        \<and> (includeResultMetadata w \<longrightarrow>
             fst (deleteRecord tok w s) = toPublic (Some d)
             \<and> (\<not> truthy (d_updatedAt d) \<or> valid_date (d_updatedAt d) \<longrightarrow>
                  backup_calls (snd (deleteRecord tok w s)) = Suc (backup_calls s)))
        \<and> (\<not> includeResultMetadata w \<and> truthy (d_value d) \<longrightarrow>
             fst (deleteRecord tok w s) = toPublic (Some (fields_of (d_value d)))
             \<and> backup_calls (snd (deleteRecord tok w s)) = Suc (backup_calls s))
        \<and> (\<not> includeResultMetadata w \<and> \<not> truthy (d_value d) \<longrightarrow>
             fst (deleteRecord tok w s) = Inr None
             \<and> backup_calls (snd (deleteRecord tok w s)) = backup_calls s)"
  proof
    assume h: "fst (ensureConnection w s) = Inr () \<and> findOneAndDelete_ok w
        \<and> find (matches (getQueryFromId tok)) (records s) = Some d"
    note f = deleteRecord_found[OF conjunct1[OF h] conjunct1[OF conjunct2[OF h]]
        conjunct2[OF conjunct2[OF h]]]
    have r: "records (snd (deleteRecord tok w s)) =
        remove_first (matches (getQueryFromId tok)) (records s)"
      using h deleteRecord_records[of w s tok] by simp
    have m: "includeResultMetadata w \<longrightarrow>
             fst (deleteRecord tok w s) = toPublic (Some d)
             \<and> (\<not> truthy (d_updatedAt d) \<or> valid_date (d_updatedAt d) \<longrightarrow>
                  backup_calls (snd (deleteRecord tok w s)) = Suc (backup_calls s))"
      using f toPublic_returns[of d]
      by (auto simp: res_value_resolve deleteRecord_backup_calls)
    have t: "\<not> includeResultMetadata w \<and> truthy (d_value d) \<longrightarrow>
             fst (deleteRecord tok w s) = toPublic (Some (fields_of (d_value d)))
             \<and> backup_calls (snd (deleteRecord tok w s)) = Suc (backup_calls s)"
      using f toPublic_fields_of[of "d_value d"]
      by (auto simp: res_value_resolve deleteRecord_backup_calls)
    have e: "\<not> includeResultMetadata w \<and> \<not> truthy (d_value d) \<longrightarrow>
             fst (deleteRecord tok w s) = Inr None
             \<and> backup_calls (snd (deleteRecord tok w s)) = backup_calls s"
      using f by (auto simp: res_value_resolve deleteRecord_backup_calls)
    show "records (snd (deleteRecord tok w s)) = remove_first (matches (getQueryFromId tok)) (records s)
        \<and> (includeResultMetadata w \<longrightarrow>
             fst (deleteRecord tok w s) = toPublic (Some d)
             \<and> (\<not> truthy (d_updatedAt d) \<or> valid_date (d_updatedAt d) \<longrightarrow>
                  backup_calls (snd (deleteRecord tok w s)) = Suc (backup_calls s)))
        \<and> (\<not> includeResultMetadata w \<and> truthy (d_value d) \<longrightarrow>
             fst (deleteRecord tok w s) = toPublic (Some (fields_of (d_value d)))
             \<and> backup_calls (snd (deleteRecord tok w s)) = Suc (backup_calls s))
        \<and> (\<not> includeResultMetadata w \<and> \<not> truthy (d_value d) \<longrightarrow>
             fst (deleteRecord tok w s) = Inr None
             \<and> backup_calls (snd (deleteRecord tok w s)) = backup_calls s)"
      using r m t e by blast
  qed
  show ?thesis
    using a a2 u d0 d3 d4 by blast
qed

lemma addRecord_example:
  "fst (addRecord (Str ''A'') (Str ''1'') world_ok (process_start [])) = Inr (Some public_one)"
  by code_simp

lemma deleteRecord_missing_example:
  "find (matches (getQueryFromId (Num 9))) (records state_one) = None"
  by code_simp

lemma deleteRecord_found_example:
  "fst (ensureConnection world_v5 state_one) = Inr () \<and> findOneAndDelete_ok world_v5
   \<and> find (matches (getQueryFromId (Num 1))) (records state_one) = Some doc_one"
  "fst (ensureConnection world_ok state_one) = Inr () \<and> findOneAndDelete_ok world_ok
   \<and> find (matches (getQueryFromId (Num 1))) (records state_one) = Some doc_one"
  "fst (ensureConnection world_ok state_empty_value) = Inr () \<and> findOneAndDelete_ok world_ok
   \<and> find (matches (getQueryFromId (Num 1))) (records state_empty_value) = Some doc_empty_value"
  by code_simp+

lemma deleteRecord_driver_example:
  "includeResultMetadata world_v5" "\<not> includeResultMetadata world_ok"
  "\<not> truthy (d_updatedAt doc_one)" "truthy (d_value doc_one)" "\<not> truthy (d_value doc_empty_value)"
  "toPublic (Some doc_one) = Inr (Some public_one)"
  "toPublic (Some (fields_of (d_value doc_one))) = Inr (Some public_blank)"
  by code_simp+

theorem backup_on_add_and_delete_witness:
  "fst (addRecord (Str ''A'') (Str ''1'') world_ok (process_start [])) = Inr (Some public_one)
   \<and> backup_calls (snd (addRecord (Str ''A'') (Str ''1'') world_ok (process_start []))) = 1
   \<and> backup_calls (snd (updateRecord (Num 1) (Str ''B'') (Str ''2'') world_ok state_one))
       = backup_calls state_one
   \<and> find (matches (getQueryFromId (Num 9))) (records state_one) = None
   \<and> backup_calls (snd (deleteRecord (Num 9) world_ok state_one)) = backup_calls state_one
   \<and> find (matches (getQueryFromId (Num 1))) (records state_one) = Some doc_one
   \<and> fst (deleteRecord (Num 1) world_v5 state_one) = Inr (Some public_one)
   \<and> backup_calls (snd (deleteRecord (Num 1) world_v5 state_one)) = Suc (backup_calls state_one)
   \<and> fst (deleteRecord (Num 1) world_ok state_one) = Inr (Some public_blank)
   \<and> backup_calls (snd (deleteRecord (Num 1) world_ok state_one)) = Suc (backup_calls state_one)
   \<and> find (matches (getQueryFromId (Num 1))) (records state_empty_value) = Some doc_empty_value
   \<and> records (snd (deleteRecord (Num 1) world_ok state_empty_value)) = []
   \<and> fst (deleteRecord (Num 1) world_ok state_empty_value) = Inr None
   \<and> backup_calls (snd (deleteRecord (Num 1) world_ok state_empty_value))
       = backup_calls state_empty_value"
proof -
  have r: "remove_first (matches (getQueryFromId (Num 1))) (records state_empty_value) = []"
    by code_simp
  note add = backup_on_add_and_delete[of "Str ''A''" "Str ''1''" world_ok "process_start []"
      "Some public_one" "Num 1" doc_one]
  note missing = backup_on_add_and_delete[of "Str ''B''" "Str ''2''" world_ok state_one
      "Some public_one" "Num 9" doc_one]
  note legacy = backup_on_add_and_delete[of "Str ''B''" "Str ''2''" world_v5 state_one
      "Some public_one" "Num 1" doc_one]
  note current = backup_on_add_and_delete[of "Str ''B''" "Str ''2''" world_ok state_one
      "Some public_one" "Num 1" doc_one]
  note empty = backup_on_add_and_delete[of "Str ''B''" "Str ''2''" world_ok state_empty_value
      "Some public_one" "Num 1" doc_empty_value]
  have 1: "backup_calls (snd (addRecord (Str ''A'') (Str ''1'') world_ok (process_start []))) = 1"
    using add addRecord_example by (simp add: process_start_def)
  have 2: "backup_calls (snd (updateRecord (Num 1) (Str ''B'') (Str ''2'') world_ok state_one))
       = backup_calls state_one"
    using current by blast
  have 3: "backup_calls (snd (deleteRecord (Num 9) world_ok state_one)) = backup_calls state_one"
    using missing deleteRecord_missing_example by blast
  have 4: "fst (deleteRecord (Num 1) world_v5 state_one) = Inr (Some public_one)
      \<and> backup_calls (snd (deleteRecord (Num 1) world_v5 state_one)) = Suc (backup_calls state_one)"
    using legacy deleteRecord_found_example(1) deleteRecord_driver_example(1,3,6) by metis
  have 5: "fst (deleteRecord (Num 1) world_ok state_one) = Inr (Some public_blank)
      \<and> backup_calls (snd (deleteRecord (Num 1) world_ok state_one)) = Suc (backup_calls state_one)"
    using current deleteRecord_found_example(2) deleteRecord_driver_example(2,4,7) by metis
  have 6: "records (snd (deleteRecord (Num 1) world_ok state_empty_value)) = []
      \<and> fst (deleteRecord (Num 1) world_ok state_empty_value) = Inr None
      \<and> backup_calls (snd (deleteRecord (Num 1) world_ok state_empty_value))
          = backup_calls state_empty_value"
    using empty deleteRecord_found_example(3) deleteRecord_driver_example(2,5) r by metis
  show ?thesis
    using addRecord_example deleteRecord_missing_example deleteRecord_found_example 1 2 3 4 5 6
    by blast
qed

lemma createBackup_failure:
  assumes "collection s" and "\<not> writeFile_ok w \<or> \<not> backup_find_ok w"
  shows "createBackup w s =
     (Inr (), s\<lparr>backup_calls := Suc (backup_calls s),
                console_error := console_error s @ [''Failed to create backup:'']\<rparr>)"
  using assms by (auto simp: createBackup_def backup_body_def Let_def)

lemma createBackup_success:
  assumes "collection s" and "writeFile_ok w" and "backup_find_ok w"
  shows "createBackup w s =
     (Inr (), s\<lparr>backup_calls := Suc (backup_calls s),
                backups := writeFile (backup_filename (backup_now w)) (map export_doc (records s))
                             (backups s)\<rparr>)"
  using assms by (auto simp: createBackup_def backup_body_def Let_def)

text \<open>
  Claim C5.  When the connection is there, the insert and the read-back succeed, and
  the backup then fails (the snapshot cannot be read or the file cannot be written),
  \<^verbatim>\<open>addRecord\<close> still returns the added record: the failure is logged with
  \<^verbatim>\<open>console.error\<close> and goes no further, the document stays in the collection, no file
  is written, and the counter keeps its increment.
\<close>

theorem backup_failure_not_propagated:
  assumes conn: "fst (ensureConnection w s) = Inr ()"
    and ok: "insert_ok w \<and> findOne_ok w"
    and fresh: "\<not> list_ex (\<lambda>e. d_id e = ObjectId (fresh_id w)) (records s)"
    and bfail: "\<not> writeFile_ok w \<or> \<not> backup_find_ok w"
  shows "fst (addRecord n v w s) =
           Inr (Some \<lparr>p_id = Str (fresh_id w),
                       p_userID = js_or (Num (staticUserId (snd (ensureConnection w s)))) Null,
                       p_name = bson n, p_value = bson v,
                       p_created = Str (take 10 (iso_string (now w))),
                       p_createdAt = Str (iso_string (now w)), p_updatedAt = Null,
                       p_updated = Null\<rparr>)
       \<and> staticUserId (snd (addRecord n v w s)) = staticUserId (snd (ensureConnection w s)) + 1
       \<and> records (snd (addRecord n v w s)) = records s @
             [\<lparr>d_id = ObjectId (fresh_id w), d_alt_id = Undefined,
               d_userID = Num (staticUserId (snd (ensureConnection w s))), d_name = bson n,
               d_value = bson v, d_createdAt = Str (iso_string (now w)), d_updatedAt = Undefined\<rparr>]
       \<and> console_error (snd (addRecord n v w s)) =
             console_error (snd (ensureConnection w s)) @ [''Failed to create backup:'']
       \<and> backups (snd (addRecord n v w s)) = backups s"
proof -
  obtain s1 where ec: "ensureConnection w s = (Inr (), s1)"
    using conn by (cases "ensureConnection w s") auto
  have c1: "collection s1" and b1: "backups s1 = backups s"
    using ensureConnection_InrD[OF ec] ensureConnection_frame(4)[of w s] ec by simp_all
  show ?thesis
    using c1 b1 bfail
    by (simp add: addRecord_success[OF ec conjunct1[OF ok] conjunct2[OF ok] fresh] ec
        createBackup_failure emit_def)
qed

theorem backup_failure_not_propagated_witness:
  "fst (ensureConnection (world_ok\<lparr>writeFile_ok := False\<rparr>) (process_start [])) = Inr ()
   \<and> insert_ok (world_ok\<lparr>writeFile_ok := False\<rparr>)
   \<and> findOne_ok (world_ok\<lparr>writeFile_ok := False\<rparr>)
   \<and> \<not> writeFile_ok (world_ok\<lparr>writeFile_ok := False\<rparr>)
   \<and> fst (addRecord (Str ''A'') (Str ''1'') (world_ok\<lparr>writeFile_ok := False\<rparr>) (process_start []))
       = Inr (Some public_one)
   \<and> staticUserId (snd (addRecord (Str ''A'') (Str ''1'') (world_ok\<lparr>writeFile_ok := False\<rparr>)
         (process_start []))) = 2
   \<and> console_error (snd (addRecord (Str ''A'') (Str ''1'') (world_ok\<lparr>writeFile_ok := False\<rparr>)
         (process_start []))) = [''Failed to create backup:'']
   \<and> backups (snd (addRecord (Str ''A'') (Str ''1'') (world_ok\<lparr>writeFile_ok := False\<rparr>)
         (process_start []))) = []"
proof -
  have h1: "fst (ensureConnection (world_ok\<lparr>writeFile_ok := False\<rparr>) (process_start [])) = Inr ()"
    by code_simp
  have h2: "insert_ok (world_ok\<lparr>writeFile_ok := False\<rparr>) \<and> findOne_ok (world_ok\<lparr>writeFile_ok := False\<rparr>)"
    by code_simp
  have h3: "\<not> list_ex (\<lambda>e. d_id e = ObjectId (fresh_id (world_ok\<lparr>writeFile_ok := False\<rparr>)))
              (records (process_start []))"
    by (simp add: process_start_def)
  have h4: "\<not> writeFile_ok (world_ok\<lparr>writeFile_ok := False\<rparr>)
            \<or> \<not> backup_find_ok (world_ok\<lparr>writeFile_ok := False\<rparr>)"
    by simp
  have e: "fst (addRecord (Str ''A'') (Str ''1'') (world_ok\<lparr>writeFile_ok := False\<rparr>) (process_start []))
       = Inr (Some public_one)"
    by code_simp
  have k: "staticUserId (snd (ensureConnection (world_ok\<lparr>writeFile_ok := False\<rparr>) (process_start []))) = 1"
    "console_error (snd (ensureConnection (world_ok\<lparr>writeFile_ok := False\<rparr>) (process_start []))) = []"
    "backups (process_start []) = []"
    by code_simp+
  show ?thesis
    using backup_failure_not_propagated[OF h1 h2 h3 h4, of "Str ''A''" "Str ''1''"] h1 h2 e k
    by simp
qed

section \<open>Identifier resolution\<close>

lemma getQueryFromId_textual:
  assumes "textual tok"
  shows "getQueryFromId tok =
     (let s = trim (String_of tok) in
      if s = [] then No_id
      else if all_digits s then By_userID (int (digits_value 0 s))
      else (case new_ObjectId s of Inr h \<Rightarrow> By_id h | Inl e \<Rightarrow> No_id))"
  using assms by (cases tok) (simp_all add: getQueryFromId_def textual_def)

text \<open>
  Claim C2.  \<^verbatim>\<open>updateRecord\<close> and \<^verbatim>\<open>deleteRecord\<close> act on the first document that the
  query of \<^verbatim>\<open>getQueryFromId\<close> matches.  A number, or a token whose trimmed string is all
  digits, matches exactly the documents whose \<^verbatim>\<open>userID\<close> is that number.  Any other
  token whose trimmed string the ObjectId constructor accepts matches exactly the
  documents with that \<^verbatim>\<open>_id\<close>.  An absent token, an empty one, and one that the
  constructor refuses match no document that has an \<^verbatim>\<open>_id\<close>; the refusal is caught, so
  a query comes back for every token.
\<close>

theorem getQueryFromId_resolution:
  "matches (getQueryFromId (Num k)) d = (d_userID d = Num k)
   \<and> (textual tok \<and> all_digits (trim (String_of tok)) \<longrightarrow>
        matches (getQueryFromId tok) d = (d_userID d = Num (int (digits_value 0 (trim (String_of tok))))))
   \<and> (textual tok \<and> \<not> all_digits (trim (String_of tok)) \<and> new_ObjectId (trim (String_of tok)) = Inr h \<longrightarrow>
        matches (getQueryFromId tok) d = (d_id d = ObjectId h))
   \<and> ((tok = Undefined \<or> tok = Null \<or> (textual tok \<and> trim (String_of tok) = [])
         \<or> (textual tok \<and> \<not> all_digits (trim (String_of tok)) \<and> new_ObjectId (trim (String_of tok)) = Inl e))
        \<and> d_id d \<noteq> Undefined \<longrightarrow> \<not> matches (getQueryFromId tok) d)
   \<and> (fst (ensureConnection w s) = Inr () \<and> findOneAndDelete_ok w \<longrightarrow>
        records (snd (deleteRecord tok w s)) = remove_first (matches (getQueryFromId tok)) (records s))
   \<and> (fst (ensureConnection w s) = Inr () \<and> findOneAndUpdate_ok w \<longrightarrow>
        records (snd (updateRecord tok n v w s)) =
          update_first (matches (getQueryFromId tok))
            (\<lambda>d. d\<lparr>d_name := bson n, d_value := bson v, d_updatedAt := Str (iso_string (now w))\<rparr>)
            (records s))"
proof -
  have a: "matches (getQueryFromId (Num k)) d = (d_userID d = Num k)"
    by (simp add: getQueryFromId_def)
  have b: "textual tok \<and> all_digits (trim (String_of tok)) \<longrightarrow>
        matches (getQueryFromId tok) d = (d_userID d = Num (int (digits_value 0 (trim (String_of tok)))))"
    by (auto simp: getQueryFromId_textual Let_def all_digits_def)
  have c: "textual tok \<and> \<not> all_digits (trim (String_of tok)) \<and> new_ObjectId (trim (String_of tok)) = Inr h \<longrightarrow>
        matches (getQueryFromId tok) d = (d_id d = ObjectId h)"
    by (auto simp: getQueryFromId_textual Let_def new_ObjectId_def split: if_splits)
  have d: "(tok = Undefined \<or> tok = Null \<or> (textual tok \<and> trim (String_of tok) = [])
         \<or> (textual tok \<and> \<not> all_digits (trim (String_of tok)) \<and> new_ObjectId (trim (String_of tok)) = Inl e))
        \<and> d_id d \<noteq> Undefined \<longrightarrow> \<not> matches (getQueryFromId tok) d"
    by (auto simp: getQueryFromId_textual Let_def split: if_splits) (simp_all add: getQueryFromId_def)
  show ?thesis
    using a b c d deleteRecord_records[of w s tok] updateRecord_records[of w s tok n v] by blast
qed

lemma records_state_one: "records state_one = [doc_one]"
  by code_simp

theorem getQueryFromId_resolution_witness:
  "textual (Str '' 001 '') \<and> all_digits (trim (String_of (Str '' 001 '')))
   \<and> matches (getQueryFromId (Str '' 001 '')) doc_one
   \<and> textual (Str ''507F1F77BCF86CD799439011'')
   \<and> new_ObjectId (trim (String_of (Str ''507F1F77BCF86CD799439011''))) = Inr ''507f1f77bcf86cd799439011''
   \<and> matches (getQueryFromId (Str ''507F1F77BCF86CD799439011'')) doc_one
   \<and> new_ObjectId (trim (String_of (Str ''abc''))) = Inl BSONError
   \<and> \<not> matches (getQueryFromId (Str ''abc'')) doc_one
   \<and> \<not> matches (getQueryFromId Undefined) doc_one
   \<and> fst (ensureConnection world_ok state_one) = Inr () \<and> findOneAndDelete_ok world_ok
   \<and> records (snd (deleteRecord (Str '' 001 '') world_ok state_one)) = []
   \<and> findOneAndUpdate_ok world_ok
   \<and> records (snd (updateRecord (Str ''abc'') (Str ''B'') (Str ''2'') world_ok state_one)) = [doc_one]"
proof -
  have t1: "textual (Str '' 001 '') \<and> all_digits (trim (String_of (Str '' 001 '')))"
    "int (digits_value 0 (trim (String_of (Str '' 001 '')))) = 1"
    by code_simp+
  have t2: "textual (Str ''507F1F77BCF86CD799439011'')
      \<and> \<not> all_digits (trim (String_of (Str ''507F1F77BCF86CD799439011'')))
      \<and> new_ObjectId (trim (String_of (Str ''507F1F77BCF86CD799439011''))) = Inr ''507f1f77bcf86cd799439011''"
    by code_simp
  have t3: "textual (Str ''abc'') \<and> \<not> all_digits (trim (String_of (Str ''abc'')))
      \<and> new_ObjectId (trim (String_of (Str ''abc''))) = Inl BSONError"
    by code_simp
  have c: "fst (ensureConnection world_ok state_one) = Inr () \<and> findOneAndDelete_ok world_ok
      \<and> findOneAndUpdate_ok world_ok"
    by code_simp
  have d: "d_userID doc_one = Num 1" "d_id doc_one = ObjectId ''507f1f77bcf86cd799439011''"
    by (simp_all add: doc_one_def)
  have r: "remove_first (matches (getQueryFromId (Str '' 001 ''))) (records state_one) = []"
    "update_first (matches (getQueryFromId (Str ''abc'')))
       (\<lambda>d. d\<lparr>d_name := bson (Str ''B''), d_value := bson (Str ''2''),
               d_updatedAt := Str (iso_string (now world_ok))\<rparr>) (records state_one) = [doc_one]"
    by code_simp+
  show ?thesis
    using getQueryFromId_resolution[of 1 doc_one "Str '' 001 ''" "''507f1f77bcf86cd799439011''"
        BSONError world_ok state_one "Str ''B''" "Str ''2''"]
      getQueryFromId_resolution[of 1 doc_one "Str ''507F1F77BCF86CD799439011''"
        "''507f1f77bcf86cd799439011''" BSONError world_ok state_one "Str ''B''" "Str ''2''"]
      getQueryFromId_resolution[of 1 doc_one "Str ''abc''" "''507f1f77bcf86cd799439011''"
        BSONError world_ok state_one "Str ''B''" "Str ''2''"]
      getQueryFromId_resolution[of 1 doc_one Undefined "''507f1f77bcf86cd799439011''"
        BSONError world_ok state_one "Str ''B''" "Str ''2''"]
      t1 t2 t3 c d r
    by simp
qed

section \<open>Seeding the counter\<close>













section \<open>Reading back a time stamp\<close>

lemma DayFromYear_mono: "y \<le> z \<Longrightarrow> DayFromYear y \<le> DayFromYear z"
proof (induction z rule: int_ge_induct)
  case base
  show ?case by simp
next
  case (step i)
  then show ?case using DayFromYear_less[of i] by linarith
qed

lemma start_nonneg:
  assumes "0 \<le> d"
  shows "DayFromYear (1970 + d div 366) \<le> d"
proof -
  have "DayFromYear (1970 + k) \<le> 366 * k" if "0 \<le> k" for k
    using that
  proof (induction k rule: int_ge_induct)
    case base
    show ?case by (simp add: DayFromYear_def)
  next
    case (step i)
    have "DayFromYear (1970 + i + 1) \<le> DayFromYear (1970 + i) + 366"
      by (simp only: DayFromYear_step split: if_split) simp
    moreover have "1970 + (i + 1) = 1970 + i + 1"
      by simp
    ultimately show ?case using step by (simp add: algebra_simps)
  qed
  from this[of "d div 366"] assms have "DayFromYear (1970 + d div 366) \<le> 366 * (d div 366)"
    by (simp add: pos_imp_zdiv_nonneg_iff)
  also have "\<dots> \<le> d"
    using mult_div_mod_eq[of 366 d] pos_mod_sign[of 366 d] by linarith
  finally show ?thesis .
qed

lemma start_neg:
  assumes "d < 0"
  shows "DayFromYear (1970 + d div 365) \<le> d"
proof -
  have "DayFromYear (1970 + k) \<le> 365 * k" if "k \<le> 0" for k
    using that
  proof (induction k rule: int_le_induct)
    case base
    show ?case by (simp add: DayFromYear_def)
  next
    case (step i)
    have "DayFromYear (1970 + (i - 1) + 1) = DayFromYear (1970 + (i - 1)) + (if InLeapYear (1970 + (i - 1)) then 366 else 365)"
      by (rule DayFromYear_step)
    moreover have "1970 + (i - 1) + 1 = 1970 + i"
      by simp
    ultimately have "DayFromYear (1970 + (i - 1)) \<le> DayFromYear (1970 + i) - 365"
      by (simp only: split: if_splits) linarith+
    then show ?case using step by (simp add: algebra_simps)
  qed
  from this[of "d div 365"] assms have "DayFromYear (1970 + d div 365) \<le> 365 * (d div 365)"
    by (simp add: div_int_pos_iff)
  also have "\<dots> \<le> d"
    using mult_div_mod_eq[of 365 d] pos_mod_sign[of 365 d] by linarith
  finally show ?thesis .
qed

lemma year_search_spec:
  "DayFromYear y \<le> d \<Longrightarrow>
   DayFromYear (year_search d y) \<le> d \<and> d < DayFromYear (year_search d y + 1)"
proof (induction d y rule: year_search.induct)
  case (1 d y)
  show ?case
  proof (cases "DayFromYear (y + 1) \<le> d")
    case True
    then show ?thesis
      using "1.IH" by (subst (1 2) year_search.simps) simp
  next
    case False
    then show ?thesis
      using "1.prems" by (subst (1 2) year_search.simps) simp
  qed
qed

lemma YearFromDay_spec:
  "DayFromYear (YearFromDay d) \<le> d \<and> d < DayFromYear (YearFromDay d + 1)"
proof (cases "0 \<le> d")
  case True
  then show ?thesis
    using year_search_spec[OF start_nonneg[OF True]] by (simp add: YearFromDay_def)
next
  case False
  then have "d < 0"
    by simp
  then show ?thesis
    using year_search_spec[OF start_neg] by (simp add: YearFromDay_def)
qed

lemma day_in_year_bounds:
  "0 \<le> d - DayFromYear (YearFromDay d)
   \<and> d - DayFromYear (YearFromDay d) < (if InLeapYear (YearFromDay d) then 366 else 365)"
  using YearFromDay_spec[of d] DayFromYear_step[of "YearFromDay d"] by (simp split: if_splits)

lemma YearFromDay_range:
  assumes "DayFromYear 0 \<le> d" and "d < DayFromYear 10000"
  shows "0 \<le> YearFromDay d \<and> YearFromDay d \<le> 9999"
proof -
  have "\<not> YearFromDay d + 1 \<le> 0"
    using DayFromYear_mono[of "YearFromDay d + 1" 0] YearFromDay_spec[of d] assms(1) by linarith
  moreover have "\<not> 10000 \<le> YearFromDay d"
    using DayFromYear_mono[of 10000 "YearFromDay d"] YearFromDay_spec[of d] assms(2) by linarith
  ultimately show ?thesis
    by linarith
qed

lemma month_bounds:
  assumes "0 \<le> n" and "n < (if leap then 366 else 365)"
  shows "0 \<le> MonthFromDay leap n \<and> MonthFromDay leap n \<le> 11
       \<and> month_start leap (MonthFromDay leap n) \<le> n
       \<and> n < month_start leap (MonthFromDay leap n) + 31"
  using assms by (cases leap) (simp_all add: MonthFromDay_def month_start_def)

lemma digit_val_digit_char: "k < 10 \<Longrightarrow> digit_val (digit_char k) = Some k"
  by (simp add: digit_val_def digit_char_def Let_def)

lemma num_field_2:
  "a < 10 \<Longrightarrow> b < 10 \<Longrightarrow> num_field [digit_char a, digit_char b] = Some (int (10 * a + b))"
  by (simp add: num_field_def all_digits_def is_digit_def digit_val_digit_char)

lemma num_field_3:
  "a < 10 \<Longrightarrow> b < 10 \<Longrightarrow> c < 10 \<Longrightarrow>
   num_field [digit_char a, digit_char b, digit_char c] = Some (int (100 * a + 10 * b + c))"
  by (simp add: num_field_def all_digits_def is_digit_def digit_val_digit_char)

lemma num_field_4:
  "a < 10 \<Longrightarrow> b < 10 \<Longrightarrow> c < 10 \<Longrightarrow> e < 10 \<Longrightarrow>
   num_field [digit_char a, digit_char b, digit_char c, digit_char e]
     = Some (int (1000 * a + 100 * b + 10 * c + e))"
  by (simp add: num_field_def all_digits_def is_digit_def digit_val_digit_char)

lemma two_digits_value: "n < 100 \<Longrightarrow> 10 * (n div 10 mod 10) + n mod 10 = n" for n :: nat
  by simp

lemma three_digits_value:
  fixes n :: nat
  assumes "n < 1000"
  shows "100 * (n div 100 mod 10) + 10 * (n div 10 mod 10) + n mod 10 = n"
proof -
  have lin: "100 * P + 10 * X + Y = n" if "Q = 10 * P + X" and "n = 10 * Q + Y" for P Q X Y :: nat
    using that by simp
  have h: "n div 100 mod 10 = n div 100"
    using assms by simp
  have "n div 10 = 10 * (n div 10 div 10) + n div 10 mod 10"
    by simp
  moreover have "n div 10 div 10 = n div 100"
    by (simp add: div_mult2_eq)
  ultimately have q: "n div 10 = 10 * (n div 100) + n div 10 mod 10"
    by simp
  have "n = 10 * (n div 10) + n mod 10"
    by simp
  from lin[OF q this] show ?thesis
    by (simp only: h)
qed

lemma four_digits_value:
  fixes n :: nat
  assumes "n < 10000"
  shows "1000 * (n div 1000 mod 10) + 100 * (n div 100 mod 10) + 10 * (n div 10 mod 10) + n mod 10 = n"
proof -
  have lin: "1000 * R + 100 * Z + 10 * X + Y = n"
    if "P = 10 * R + Z" and "Q = 10 * P + X" and "n = 10 * Q + Y" for P Q R X Y Z :: nat
    using that by simp
  have h: "n div 1000 mod 10 = n div 1000"
    using assms by simp
  have "n div 10 = 10 * (n div 10 div 10) + n div 10 mod 10"
    by simp
  moreover have "n div 10 div 10 = n div 100"
    by (simp add: div_mult2_eq)
  ultimately have q: "n div 10 = 10 * (n div 100) + n div 10 mod 10"
    by simp
  have "n div 100 = 10 * (n div 100 div 10) + n div 100 mod 10"
    by simp
  moreover have "n div 100 div 10 = n div 1000"
    by (simp add: div_mult2_eq)
  ultimately have p: "n div 100 = 10 * (n div 1000) + n div 100 mod 10"
    by simp
  have "n = 10 * (n div 10) + n mod 10"
    by simp
  from lin[OF p q this] show ?thesis
    by (simp only: h)
qed

text \<open>The time within the day splits into hours, minutes, seconds and milliseconds.\<close>

lemma time_fields:
  fixes r :: int
  assumes "0 \<le> r" and "r < 86400000"
  shows "0 \<le> r div 3600000 \<and> r div 3600000 \<le> 23
       \<and> 0 \<le> r div 60000 mod 60 \<and> r div 60000 mod 60 \<le> 59
       \<and> 0 \<le> r div 1000 mod 60 \<and> r div 1000 mod 60 \<le> 59
       \<and> 0 \<le> r mod 1000 \<and> r mod 1000 \<le> 999
       \<and> MakeTime (r div 3600000) (r div 60000 mod 60) (r div 1000 mod 60) (r mod 1000) = r"
proof -
  have lin: "H * 3600000 + M * 60000 + S * 1000 + L = r \<and> (r < 86400000 \<longrightarrow> H \<le> 23)"
    if "r = 1000 * A + L" and "A = 60 * B + S" and "B = 60 * H + M"
      and "0 \<le> L" and "0 \<le> S" and "0 \<le> M"
    for A B H M S L :: int
    using that by auto
  have a: "r = 1000 * (r div 1000) + r mod 1000"
    by simp
  have "r div 1000 = 60 * (r div 1000 div 60) + r div 1000 mod 60"
    by simp
  moreover have "r div 1000 div 60 = r div 60000"
    using zdiv_zmult2_eq[of 60 r 1000] by simp
  ultimately have b: "r div 1000 = 60 * (r div 60000) + r div 1000 mod 60"
    by simp
  have "r div 60000 = 60 * (r div 60000 div 60) + r div 60000 mod 60"
    by simp
  moreover have "r div 60000 div 60 = r div 3600000"
    using zdiv_zmult2_eq[of 60 r 60000] by simp
  ultimately have c: "r div 60000 = 60 * (r div 3600000) + r div 60000 mod 60"
    by simp
  have e: "0 \<le> r mod 1000" "r mod 1000 < 1000" "0 \<le> r div 1000 mod 60" "r div 1000 mod 60 < 60"
    "0 \<le> r div 60000 mod 60" "r div 60000 mod 60 < 60"
    by simp_all
  have f: "0 \<le> r div 3600000"
    using assms(1) by (simp add: pos_imp_zdiv_nonneg_iff)
  have le: "x < k + 1 \<Longrightarrow> x \<le> k" for x k :: int
    by simp
  have g: "r mod 1000 \<le> 999" "r div 1000 mod 60 \<le> 59" "r div 60000 mod 60 \<le> 59"
    by (rule le, simp)+
  from lin[OF a b c e(1) e(3) e(5)] assms(2) e(1,3,5) f g show ?thesis
    unfolding MakeTime_def by blast
qed

lemma num_field_two_digits: "n < 100 \<Longrightarrow> num_field (two_digits n) = Some (int n)"
  using num_field_2[of "n div 10 mod 10" "n mod 10"] two_digits_value[of n]
  by (simp add: two_digits_def)

lemma num_field_three_digits: "n < 1000 \<Longrightarrow> num_field (three_digits n) = Some (int n)"
  using num_field_3[of "n div 100 mod 10" "n div 10 mod 10" "n mod 10"] three_digits_value[of n]
  by (simp add: three_digits_def two_digits_def)

lemma num_field_four_digits: "n < 10000 \<Longrightarrow> num_field (four_digits n) = Some (int n)"
  using num_field_4[of "n div 1000 mod 10" "n div 100 mod 10" "n div 10 mod 10" "n mod 10"]
    four_digits_value[of n]
  by (simp add: four_digits_def three_digits_def two_digits_def)

lemma length_digits [simp]:
  "length (two_digits n) = 2" "length (three_digits n) = 3" "length (four_digits n) = 4"
  by (simp_all add: two_digits_def three_digits_def four_digits_def)

lemma after_year_parts:
  "length (after_year mo dt h mi s ms) = 20"
  "after_year mo dt h mi s ms ! 0 = CHR ''-''"
  "after_year mo dt h mi s ms ! 3 = CHR ''-''"
  "after_year mo dt h mi s ms ! 6 = CHR ''T''"
  "after_year mo dt h mi s ms ! 9 = CHR '':''"
  "after_year mo dt h mi s ms ! 12 = CHR '':''"
  "after_year mo dt h mi s ms ! 15 = CHR ''.''"
  "after_year mo dt h mi s ms ! 19 = CHR ''Z''"
  "take 2 (drop (Suc 0) (after_year mo dt h mi s ms)) = two_digits mo"
  "take 2 (drop 4 (after_year mo dt h mi s ms)) = two_digits dt"
  "take 2 (drop 7 (after_year mo dt h mi s ms)) = two_digits h"
  "take 2 (drop 10 (after_year mo dt h mi s ms)) = two_digits mi"
  "take 2 (drop 13 (after_year mo dt h mi s ms)) = two_digits s"
  "take 3 (drop 16 (after_year mo dt h mi s ms)) = three_digits ms"
  by (simp_all add: after_year_def two_digits_def three_digits_def)

lemma parse_after_year_fields:
  assumes "1 \<le> mo" "mo \<le> 12" "1 \<le> dt" "dt \<le> 31" "h \<le> 23" "mi \<le> 59" "s \<le> 59" "ms \<le> 999"
  shows "parse_after_year y (after_year mo dt h mi s ms) =
     TimeClip (MakeDay y (int mo - 1) (int dt) * msPerDay + MakeTime (int h) (int mi) (int s) (int ms))"
  using assms
  by (simp add: parse_after_year_def after_year_parts num_field_two_digits num_field_three_digits)

lemma digit_char_not_sign: "digit_char k \<noteq> CHR ''+'' \<and> digit_char k \<noteq> CHR ''-''"
proof -
  have a: "(of_char (digit_char k) :: nat) = 48 + k mod 10"
    by (simp add: digit_char_def)
  show ?thesis
  proof (intro conjI notI)
    assume e: "digit_char k = CHR ''+''"
    from a have "(of_char (CHR ''+'') :: nat) = 48 + k mod 10"
      by (simp only: e)
    then show False
      by simp
  next
    assume e: "digit_char k = CHR ''-''"
    from a have "(of_char (CHR ''-'') :: nat) = 48 + k mod 10"
      by (simp only: e)
    then show False
      by simp
  qed
qed

lemma Date_parse_unsigned:
  assumes "s = c # cs" and "c \<noteq> CHR ''+''" and "c \<noteq> CHR ''-''"
  shows "Date_parse s =
     (case num_field (take 4 s) of
        None \<Rightarrow> None
      | Some y \<Rightarrow> if length s < 4 then None else parse_after_year y (drop 4 s))"
  using assms(2,3) unfolding Date_parse_def assms(1) by simp

lemma Date_parse_four_digits:
  assumes "n < 10000"
  shows "Date_parse (four_digits n @ rest) = parse_after_year (int n) rest"
proof -
  have f: "four_digits n @ rest = digit_char (n div 1000 mod 10) # (three_digits n @ rest)"
    by (simp add: four_digits_def)
  have t4: "take 4 (four_digits n @ rest) = four_digits n" and d4: "drop 4 (four_digits n @ rest) = rest"
    and l4: "\<not> length (four_digits n @ rest) < 4"
    by simp_all
  have "Date_parse (four_digits n @ rest) =
     (case num_field (take 4 (four_digits n @ rest)) of
        None \<Rightarrow> None
      | Some y \<Rightarrow> if length (four_digits n @ rest) < 4 then None
                  else parse_after_year y (drop 4 (four_digits n @ rest)))"
    using digit_char_not_sign[of "n div 1000 mod 10"] by (intro Date_parse_unsigned[OF f]) simp_all
  then show ?thesis
    by (simp only: t4 d4 l4 num_field_four_digits[OF assms] option.case if_False)
qed

lemma Date_parse_iso_string:
  assumes "four_digit_years t"
  shows "Date_parse (iso_string t) = Some t"
proof -
  define d where "d = t div msPerDay"
  define r where "r = t mod msPerDay"
  define y where "y = YearFromDay d"
  define n where "n = d - DayFromYear y"
  define m where "m = MonthFromDay (InLeapYear y) n"
  define dt where "dt = n - month_start (InLeapYear y) m + 1"
  define hh where "hh = r div 3600000"
  define mi where "mi = r div 60000 mod 60"
  define ss where "ss = r div 1000 mod 60"
  define ms where "ms = r mod 1000"
  have t: "t = d * msPerDay + r"
    by (simp add: d_def r_def)
  have r: "0 \<le> r" "r < 86400000"
    by (simp_all add: r_def msPerDay_def)
  have lo: "- 719528 * msPerDay \<le> t" and hi: "t < 2932897 * msPerDay"
    using assms by (simp_all add: four_digit_years_def msPerDay_def)
  have "- 719528 \<le> d"
  proof (rule ccontr)
    assume "\<not> - 719528 \<le> d"
    then have "d + 1 \<le> - 719528"
      by simp
    then have "(d + 1) * msPerDay \<le> - 719528 * msPerDay"
      by (simp add: msPerDay_def)
    then show False
      using t r(2) lo by (simp add: msPerDay_def algebra_simps)
  qed
  moreover have "d < 2932897"
  proof (rule ccontr)
    assume "\<not> d < 2932897"
    then have "2932897 * msPerDay \<le> d * msPerDay"
      by (simp add: msPerDay_def)
    then show False
      using t r(1) hi by simp
  qed
  moreover have "DayFromYear 0 = - 719528" and "DayFromYear 10000 = 2932897"
    by (simp_all add: DayFromYear_def)
  ultimately have y: "0 \<le> y" "y \<le> 9999"
    using YearFromDay_range[of d] by (simp_all add: y_def)
  have n: "0 \<le> n" "n < (if InLeapYear y then 366 else 365)"
    using day_in_year_bounds[of d] by (simp_all add: n_def y_def)
  have m: "0 \<le> m" "m \<le> 11" "1 \<le> dt" "dt \<le> 31"
    using month_bounds[OF n] by (simp_all add: m_def dt_def)
  have day: "MakeDay y m dt = d"
    by (simp add: MakeDay_def dt_def n_def)
  have tf: "0 \<le> hh" "hh \<le> 23" "0 \<le> mi" "mi \<le> 59" "0 \<le> ss" "ss \<le> 59" "0 \<le> ms" "ms \<le> 999"
    and mt: "MakeTime hh mi ss ms = r"
    using time_fields[OF r] unfolding hh_def mi_def ss_def ms_def by blast+
  have iso: "iso_string t = four_digits (nat y) @
      after_year (nat (m + 1)) (nat dt) (nat hh) (nat mi) (nat ss) (nat ms)"
    unfolding iso_string_def Let_def after_year_def
      d_def[symmetric] r_def[symmetric] y_def[symmetric] n_def[symmetric] m_def[symmetric]
      dt_def[symmetric] hh_def[symmetric] mi_def[symmetric] ss_def[symmetric] ms_def[symmetric]
    using y by (simp add: iso_year_def)
  have ny: "nat y < 10000" and iy: "int (nat y) = y"
    using y by simp_all
  have im: "int (nat (m + 1)) - 1 = m" "int (nat dt) = dt" "int (nat hh) = hh" "int (nat mi) = mi"
    "int (nat ss) = ss" "int (nat ms) = ms"
    using m tf by simp_all
  have rg: "1 \<le> nat (m + 1)" "nat (m + 1) \<le> 12" "1 \<le> nat dt" "nat dt \<le> 31" "nat hh \<le> 23"
    "nat mi \<le> 59" "nat ss \<le> 59" "nat ms \<le> 999"
    using m tf by simp_all
  have "Date_parse (iso_string t) =
      parse_after_year (int (nat y))
        (after_year (nat (m + 1)) (nat dt) (nat hh) (nat mi) (nat ss) (nat ms))"
    unfolding iso by (rule Date_parse_four_digits[OF ny])
  also have "\<dots> = TimeClip (MakeDay (int (nat y)) (int (nat (m + 1)) - 1) (int (nat dt)) * msPerDay
      + MakeTime (int (nat hh)) (int (nat mi)) (int (nat ss)) (int (nat ms)))"
    by (rule parse_after_year_fields[OF rg])
  also have "\<dots> = TimeClip t"
    by (simp only: iy im day mt t[symmetric])
  also have "\<dots> = Some t"
  proof -
    have "\<bar>t\<bar> \<le> 8640000000000000"
      using assms unfolding four_digit_years_def by linarith
    then show ?thesis
      by (simp add: TimeClip_def)
  qed
  finally show ?thesis .
qed

section \<open>Updating a record\<close>

lemma toPublic_updated:
  assumes "four_digit_years t"
  shows "toPublic (Some (d\<lparr>d_name := a, d_value := b, d_updatedAt := Str (iso_string t)\<rparr>)) =
    Inr (Some \<lparr>p_id = (if truthy (d_id d) then Str (String_of (d_id d))
                        else if truthy (d_alt_id d) then Str (String_of (d_alt_id d)) else Null),
                p_userID = js_or (d_userID d) Null, p_name = a, p_value = b,
                p_created = (if truthy (d_createdAt d) then Str (take 10 (String_of (d_createdAt d)))
                             else Null),
                p_createdAt = js_or (d_createdAt d) Null,
                p_updatedAt = Str (iso_string t),
                p_updated = Str (before_dot (replace_first CHR ''T'' CHR '' '' (iso_string t)))\<rparr>)"
  using Date_parse_iso_string[OF assms]
  by (simp add: toPublic_def Let_def js_or_def iso_string_nonempty toISOString_def)

lemma find_Some_matches: "find P ds = Some d \<Longrightarrow> P d \<and> d \<in> set ds"
  by (induction ds) (auto split: if_splits)

text \<open>
  Claim C3 does not hold of the code on a driver that resolves to the document.  With
  the connection there and the driver answering: when no document matches the
  resolved id, \<^verbatim>\<open>updateRecord\<close> returns \<^verbatim>\<open>null\<close> and the collection is as before; when
  \<open>d\<close> is the first match, its name and value are replaced and \<^verbatim>\<open>updatedAt\<close> is stamped
  in the collection.  What is returned then depends on what the driver resolves to.
  On a result object it is the public shape of the updated \<open>d\<close>, with the new name and
  value and with \<^verbatim>\<open>updatedAt\<close> the time stamp of the call, which is not null and reads
  back as the clock reading of the call (for a record created by \<^verbatim>\<open>addRecord\<close> at the
  reading \<open>t0\<close> it is after \<^verbatim>\<open>createdAt\<close> exactly when the clock has advanced since).
  On a document the program reads the record's own new \<^verbatim>\<open>value\<close> field for the
  result: when that is truthy, the returned and emitted object has no name, no value,
  no \<^verbatim>\<open>userID\<close> and no time stamp; when it is falsy, \<^verbatim>\<open>null\<close> is returned, as for a
  record that was not found, and nothing is emitted.
\<close>

theorem updateRecord_result_by_driver:
  assumes conn: "fst (ensureConnection w s) = Inr ()"
    and drv: "findOneAndUpdate_ok w"
    and clock: "four_digit_years (now w)"
  shows "(find (matches (getQueryFromId tok)) (records s) = None \<longrightarrow>
            fst (updateRecord tok n v w s) = Inr None
            \<and> records (snd (updateRecord tok n v w s)) = records s
            \<and> emitted (snd (updateRecord tok n v w s)) = emitted s)
       \<and> (find (matches (getQueryFromId tok)) (records s) = Some d \<longrightarrow>
            records (snd (updateRecord tok n v w s)) =
                update_first (matches (getQueryFromId tok))
                  (\<lambda>d. d\<lparr>d_name := bson n, d_value := bson v, d_updatedAt := Str (iso_string (now w))\<rparr>)
                  (records s)
            \<and> (includeResultMetadata w \<longrightarrow>
                 (case fst (updateRecord tok n v w s) of
                    Inr (Some r) \<Rightarrow>
                      p_name r = bson n \<and> p_value r = bson v
                      \<and> p_updatedAt r = Str (iso_string (now w)) \<and> p_updatedAt r \<noteq> Null
                      \<and> new_Date (p_updatedAt r) = Some (now w)
                      \<and> p_userID r = js_or (d_userID d) Null
                      \<and> p_createdAt r = js_or (d_createdAt d) Null
                      \<and> emitted (snd (updateRecord tok n v w s)) = emitted s @ [(''recordUpdated'', Some r)]
                      \<and> (four_digit_years t0 \<and> d_createdAt d = Str (iso_string t0) \<longrightarrow>
                           new_Date (p_createdAt r) = Some t0
                           \<and> date_before (p_createdAt r) (p_updatedAt r) = (t0 < now w))
                  | _ \<Rightarrow> False))
            \<and> (\<not> includeResultMetadata w \<and> truthy (bson v) \<longrightarrow>
                 fst (updateRecord tok n v w s) = toPublic (Some (fields_of (bson v)))
                 \<and> (case fst (updateRecord tok n v w s) of
                      Inr (Some r) \<Rightarrow>
                        p_name r = Undefined \<and> p_value r = Undefined \<and> p_userID r = Null
                        \<and> p_createdAt r = Null \<and> p_updatedAt r = Null \<and> p_updated r = Null
                        \<and> emitted (snd (updateRecord tok n v w s)) = emitted s @ [(''recordUpdated'', Some r)]
                    | _ \<Rightarrow> False))
            \<and> (\<not> includeResultMetadata w \<and> \<not> truthy (bson v) \<longrightarrow>
                 fst (updateRecord tok n v w s) = Inr None
                 \<and> emitted (snd (updateRecord tok n v w s)) = emitted s))"
proof -
  obtain s1 where ec: "ensureConnection w s = (Inr (), s1)"
    using conn by (cases "ensureConnection w s") auto
  have r1: "records s1 = records s" and e1: "emitted s1 = emitted s"
    using ensureConnection_InrD[OF ec] by simp_all
  have none: "find (matches (getQueryFromId tok)) (records s) = None \<longrightarrow>
            fst (updateRecord tok n v w s) = Inr None
            \<and> records (snd (updateRecord tok n v w s)) = records s
            \<and> emitted (snd (updateRecord tok n v w s)) = emitted s"
    using drv find_None_frame[of "matches (getQueryFromId tok)" "records s"]
    by (simp add: updateRecord_def ec r1 e1 findOneAndUpdate_def Let_def res_value_resolve)
  have legacy: "find (matches (getQueryFromId tok)) (records s) = Some d \<and> includeResultMetadata w \<longrightarrow>
            (case fst (updateRecord tok n v w s) of
               Inr (Some r) \<Rightarrow>
                 p_name r = bson n \<and> p_value r = bson v
                 \<and> p_updatedAt r = Str (iso_string (now w)) \<and> p_updatedAt r \<noteq> Null
                 \<and> new_Date (p_updatedAt r) = Some (now w)
                 \<and> p_userID r = js_or (d_userID d) Null
                 \<and> p_createdAt r = js_or (d_createdAt d) Null
                 \<and> emitted (snd (updateRecord tok n v w s)) = emitted s @ [(''recordUpdated'', Some r)]
                 \<and> (four_digit_years t0 \<and> d_createdAt d = Str (iso_string t0) \<longrightarrow>
                      new_Date (p_createdAt r) = Some t0
                      \<and> date_before (p_createdAt r) (p_updatedAt r) = (t0 < now w))
             | _ \<Rightarrow> False)"
  proof
    assume f: "find (matches (getQueryFromId tok)) (records s) = Some d \<and> includeResultMetadata w"
    show "case fst (updateRecord tok n v w s) of
               Inr (Some r) \<Rightarrow>
                 p_name r = bson n \<and> p_value r = bson v
                 \<and> p_updatedAt r = Str (iso_string (now w)) \<and> p_updatedAt r \<noteq> Null
                 \<and> new_Date (p_updatedAt r) = Some (now w)
                 \<and> p_userID r = js_or (d_userID d) Null
                 \<and> p_createdAt r = js_or (d_createdAt d) Null
                 \<and> emitted (snd (updateRecord tok n v w s)) = emitted s @ [(''recordUpdated'', Some r)]
                 \<and> (four_digit_years t0 \<and> d_createdAt d = Str (iso_string t0) \<longrightarrow>
                      new_Date (p_createdAt r) = Some t0
                      \<and> date_before (p_createdAt r) (p_updatedAt r) = (t0 < now w))
             | _ \<Rightarrow> False"
      using drv Date_parse_iso_string[OF clock] Date_parse_iso_string[of t0]
      by (simp add: updateRecord_def ec r1 e1 findOneAndUpdate_def Let_def f res_value_resolve
          toPublic_updated[OF clock] emit_def js_or_def iso_string_nonempty date_before_def)
  qed
  have current: "find (matches (getQueryFromId tok)) (records s) = Some d
            \<and> \<not> includeResultMetadata w \<and> truthy (bson v) \<longrightarrow>
                 fst (updateRecord tok n v w s) = toPublic (Some (fields_of (bson v)))
                 \<and> (case fst (updateRecord tok n v w s) of
                      Inr (Some r) \<Rightarrow>
                        p_name r = Undefined \<and> p_value r = Undefined \<and> p_userID r = Null
                        \<and> p_createdAt r = Null \<and> p_updatedAt r = Null \<and> p_updated r = Null
                        \<and> emitted (snd (updateRecord tok n v w s)) = emitted s @ [(''recordUpdated'', Some r)]
                    | _ \<Rightarrow> False)"
    using drv
    by (simp add: updateRecord_def ec r1 e1 findOneAndUpdate_def Let_def res_value_resolve
        toPublic_fields_of_eq emit_def public_blank_def)
  have falsy: "find (matches (getQueryFromId tok)) (records s) = Some d
            \<and> \<not> includeResultMetadata w \<and> \<not> truthy (bson v) \<longrightarrow>
                 fst (updateRecord tok n v w s) = Inr None
                 \<and> emitted (snd (updateRecord tok n v w s)) = emitted s"
    using drv
    by (simp add: updateRecord_def ec r1 e1 findOneAndUpdate_def Let_def res_value_resolve)
  show ?thesis
    using none legacy current falsy updateRecord_records[OF conn drv, of tok n v] by blast
qed

theorem updateRecord_result_by_driver_witness:
  "fst (ensureConnection (world_v5\<lparr>now := 1762041601456\<rparr>) state_one) = Inr ()
   \<and> findOneAndUpdate_ok (world_v5\<lparr>now := 1762041601456\<rparr>)
   \<and> four_digit_years (now (world_v5\<lparr>now := 1762041601456\<rparr>))
   \<and> find (matches (getQueryFromId (Num 1))) (records state_one) = Some doc_one
   \<and> fst (updateRecord (Num 1) (Str ''B'') (Str ''2'') (world_v5\<lparr>now := 1762041601456\<rparr>) state_one)
       = Inr (Some public_later)
   \<and> p_name public_later = Str ''B'' \<and> p_value public_later = Str ''2''
   \<and> new_Date (p_updatedAt public_later) = Some 1762041601456
   \<and> d_createdAt doc_one = Str (iso_string 1762041600123)
   \<and> date_before (p_createdAt public_later) (p_updatedAt public_later)
   \<and> find (matches (getQueryFromId (Num 9))) (records state_one) = None
   \<and> fst (updateRecord (Num 9) (Str ''B'') (Str ''2'') (world_v5\<lparr>now := 1762041601456\<rparr>) state_one)
       = Inr None
   \<and> \<not> includeResultMetadata (world_ok\<lparr>now := 1762041601456\<rparr>)
   \<and> fst (updateRecord (Num 1) (Str ''B'') (Str ''2'') (world_ok\<lparr>now := 1762041601456\<rparr>) state_one)
       = Inr (Some public_blank)
   \<and> records (snd (updateRecord (Num 1) (Str ''B'') (Str ''2'') (world_ok\<lparr>now := 1762041601456\<rparr>)
        state_one)) = [doc_later]
   \<and> fst (updateRecord (Num 1) (Str ''B'') (Str '''') (world_ok\<lparr>now := 1762041601456\<rparr>) state_one)
       = Inr None
   \<and> records (snd (updateRecord (Num 1) (Str ''B'') (Str '''') (world_ok\<lparr>now := 1762041601456\<rparr>)
        state_one)) = [doc_later\<lparr>d_value := Str ''''\<rparr>]"
proof -
  have h1: "fst (ensureConnection (world_v5\<lparr>now := 1762041601456\<rparr>) state_one) = Inr ()"
    by code_simp
  have h2: "findOneAndUpdate_ok (world_v5\<lparr>now := 1762041601456\<rparr>)"
    by code_simp
  have h3: "four_digit_years (now (world_v5\<lparr>now := 1762041601456\<rparr>))"
    by code_simp
  have g1: "fst (ensureConnection (world_ok\<lparr>now := 1762041601456\<rparr>) state_one) = Inr ()"
    by code_simp
  have g2: "findOneAndUpdate_ok (world_ok\<lparr>now := 1762041601456\<rparr>)"
    by code_simp
  have g3: "four_digit_years (now (world_ok\<lparr>now := 1762041601456\<rparr>))"
    by code_simp
  have m: "includeResultMetadata (world_v5\<lparr>now := 1762041601456\<rparr>)"
    "\<not> includeResultMetadata (world_ok\<lparr>now := 1762041601456\<rparr>)"
    "truthy (bson (Str ''2''))" "\<not> truthy (bson (Str ''''))"
    by code_simp+
  have f1: "find (matches (getQueryFromId (Num 1))) (records state_one) = Some doc_one"
    by code_simp
  have f9: "find (matches (getQueryFromId (Num 9))) (records state_one) = None"
    by code_simp
  have e: "fst (updateRecord (Num 1) (Str ''B'') (Str ''2'') (world_v5\<lparr>now := 1762041601456\<rparr>) state_one)
       = Inr (Some public_later)"
    by code_simp
  have c: "four_digit_years 1762041600123 \<and> d_createdAt doc_one = Str (iso_string 1762041600123)"
    by code_simp
  have n: "now (world_v5\<lparr>now := 1762041601456\<rparr>) = 1762041601456"
    by (simp add: world_v5_def)
  have v: "p_name public_later = Str ''B'' \<and> p_value public_later = Str ''2''"
    by code_simp
  have lt: "(1762041600123::int) < 1762041601456"
    by simp
  have b: "toPublic (Some (fields_of (bson (Str ''2'')))) = Inr (Some public_blank)"
    by code_simp
  have u: "update_first (matches (getQueryFromId (Num 1)))
       (\<lambda>d. d\<lparr>d_name := bson (Str ''B''), d_value := bson (Str ''2''),
               d_updatedAt := Str (iso_string (now (world_ok\<lparr>now := 1762041601456\<rparr>)))\<rparr>)
       (records state_one) = [doc_later]"
    "update_first (matches (getQueryFromId (Num 1)))
       (\<lambda>d. d\<lparr>d_name := bson (Str ''B''), d_value := bson (Str ''''),
               d_updatedAt := Str (iso_string (now (world_ok\<lparr>now := 1762041601456\<rparr>)))\<rparr>)
       (records state_one) = [doc_later\<lparr>d_value := Str ''''\<rparr>]"
    by code_simp+
  note legacy = updateRecord_result_by_driver[OF h1 h2 h3, of "Num 1" "Str ''B''" "Str ''2''" doc_one
      1762041600123]
  note missing = updateRecord_result_by_driver[OF h1 h2 h3, of "Num 9" "Str ''B''" "Str ''2''" doc_one
      1762041600123]
  note current = updateRecord_result_by_driver[OF g1 g2 g3, of "Num 1" "Str ''B''" "Str ''2''" doc_one
      1762041600123]
  note empty = updateRecord_result_by_driver[OF g1 g2 g3, of "Num 1" "Str ''B''" "Str ''''" doc_one
      1762041600123]
  have big: "case fst (updateRecord (Num 1) (Str ''B'') (Str ''2'') (world_v5\<lparr>now := 1762041601456\<rparr>)
               state_one) of
          Inr (Some r) \<Rightarrow>
            p_name r = bson (Str ''B'') \<and> p_value r = bson (Str ''2'')
            \<and> p_updatedAt r = Str (iso_string (now (world_v5\<lparr>now := 1762041601456\<rparr>)))
            \<and> p_updatedAt r \<noteq> Null
            \<and> new_Date (p_updatedAt r) = Some (now (world_v5\<lparr>now := 1762041601456\<rparr>))
            \<and> p_userID r = js_or (d_userID doc_one) Null
            \<and> p_createdAt r = js_or (d_createdAt doc_one) Null
            \<and> emitted (snd (updateRecord (Num 1) (Str ''B'') (Str ''2'')
                  (world_v5\<lparr>now := 1762041601456\<rparr>) state_one))
                = emitted state_one @ [(''recordUpdated'', Some r)]
            \<and> (four_digit_years 1762041600123 \<and> d_createdAt doc_one = Str (iso_string 1762041600123) \<longrightarrow>
                 new_Date (p_createdAt r) = Some 1762041600123
                 \<and> date_before (p_createdAt r) (p_updatedAt r)
                     = (1762041600123 < now (world_v5\<lparr>now := 1762041601456\<rparr>)))
        | _ \<Rightarrow> False"
    using legacy f1 m(1) by blast
  have u': "new_Date (p_updatedAt public_later) = Some 1762041601456"
    "date_before (p_createdAt public_later) (p_updatedAt public_later)"
    using big[unfolded e sum.case option.case n] c lt by blast+
  have z: "fst (updateRecord (Num 9) (Str ''B'') (Str ''2'') (world_v5\<lparr>now := 1762041601456\<rparr>) state_one)
       = Inr None"
    using missing f9 by blast
  have k: "fst (updateRecord (Num 1) (Str ''B'') (Str ''2'') (world_ok\<lparr>now := 1762041601456\<rparr>) state_one)
       = Inr (Some public_blank)"
    "records (snd (updateRecord (Num 1) (Str ''B'') (Str ''2'') (world_ok\<lparr>now := 1762041601456\<rparr>)
        state_one)) = [doc_later]"
    using current f1 m(2,3) b u(1) by metis+
  have k0: "fst (updateRecord (Num 1) (Str ''B'') (Str '''') (world_ok\<lparr>now := 1762041601456\<rparr>) state_one)
       = Inr None"
    "records (snd (updateRecord (Num 1) (Str ''B'') (Str '''') (world_ok\<lparr>now := 1762041601456\<rparr>)
        state_one)) = [doc_later\<lparr>d_value := Str ''''\<rparr>]"
    using empty f1 m(2,4) u(2) by metis+
  show ?thesis
    using h1 h2 h3 f1 f9 e c v u' z m(2) k k0 by blast
qed

text \<open>
  On a result object, an update within the millisecond of the creation returns an
  \<^verbatim>\<open>updatedAt\<close> that is equal to \<^verbatim>\<open>createdAt\<close>, not after it.
\<close>

lemma updateRecord_same_millisecond:
  "fst (updateRecord (Num 1) (Str ''B'') (Str ''2'') world_v5 state_one) = Inr (Some public_same)
   \<and> new_Date (p_createdAt public_same) = Some 1762041600123
   \<and> new_Date (p_updatedAt public_same) = Some 1762041600123
   \<and> \<not> date_before (p_createdAt public_same) (p_updatedAt public_same)"
  by code_simp

section \<open>The public shape\<close>

text \<open>
  Claim C9, as the code has it.  \<^verbatim>\<open>toPublic\<close> returns \<^verbatim>\<open>null\<close> for a \<^verbatim>\<open>null\<close> document.
  For a document whose \<^verbatim>\<open>updatedAt\<close> is falsy or converts to a valid date it returns an
  object and does not raise, whatever the other fields hold: \<^verbatim>\<open>id\<close> is the string of
  \<^verbatim>\<open>_id\<close>, else of \<^verbatim>\<open>id\<close>, else \<^verbatim>\<open>null\<close>; \<^verbatim>\<open>userID\<close> is the document's or \<^verbatim>\<open>null\<close>;
  \<^verbatim>\<open>name\<close> and \<^verbatim>\<open>value\<close> are the document's; \<^verbatim>\<open>created\<close> is the first ten characters
  of \<^verbatim>\<open>createdAt\<close> or \<^verbatim>\<open>null\<close>; \<^verbatim>\<open>createdAt\<close> and \<^verbatim>\<open>updatedAt\<close> are the raw values or
  \<^verbatim>\<open>null\<close>; \<^verbatim>\<open>updated\<close> is the ISO rendering of \<^verbatim>\<open>updatedAt\<close> with a blank for the
  \<^verbatim>\<open>T\<close> and cut before the fraction, or \<^verbatim>\<open>null\<close>.  (A truthy \<^verbatim>\<open>updatedAt\<close> that is
  not a valid date makes \<^verbatim>\<open>toISOString\<close> throw: the example after the theorem.)
\<close>

theorem toPublic_total_on_valid_dates:
  "toPublic None = Inr None
   \<and> (\<not> truthy (d_updatedAt d) \<or> valid_date (d_updatedAt d) \<longrightarrow>
        (case toPublic (Some d) of
           Inr (Some r) \<Rightarrow>
             p_id r = (if truthy (d_id d) then Str (String_of (d_id d))
                       else if truthy (d_alt_id d) then Str (String_of (d_alt_id d)) else Null)
             \<and> p_userID r = (if truthy (d_userID d) then d_userID d else Null)
             \<and> p_name r = d_name d \<and> p_value r = d_value d
             \<and> p_created r = (if truthy (d_createdAt d) then Str (take 10 (String_of (d_createdAt d)))
                              else Null)
             \<and> p_createdAt r = (if truthy (d_createdAt d) then d_createdAt d else Null)
             \<and> p_updatedAt r = (if truthy (d_updatedAt d) then d_updatedAt d else Null)
             \<and> p_updated r =
                 (case new_Date (d_updatedAt d) of
                    Some t \<Rightarrow> if truthy (d_updatedAt d)
                              then Str (before_dot (replace_first CHR ''T'' CHR '' '' (iso_string t)))
                              else Null
                  | None \<Rightarrow> Null)
         | _ \<Rightarrow> False))"
  by (auto simp: toPublic_def Let_def js_or_def valid_date_def toISOString_def
      split: option.splits sum.splits)

theorem toPublic_raises_on_invalid_date:
  "truthy (d_updatedAt doc_bad_date) \<and> toPublic (Some doc_bad_date) = Inl RangeError"
  by code_simp

theorem toPublic_total_on_valid_dates_witness:
  "\<not> truthy (d_updatedAt doc_blank)
   \<and> toPublic (Some doc_blank) = Inr (Some public_blank)
   \<and> p_id public_blank = Null \<and> p_updated public_blank = Null
   \<and> valid_date (d_updatedAt doc_later)
   \<and> toPublic (Some doc_later) = Inr (Some public_later)
   \<and> p_id public_later = Str (String_of (d_id doc_later))
   \<and> p_updatedAt public_later = d_updatedAt doc_later"
proof -
  have h: "\<not> truthy (d_updatedAt doc_blank)"
    by code_simp
  have e: "toPublic (Some doc_blank) = Inr (Some public_blank)"
    by code_simp
  have i: "\<not> truthy (d_id doc_blank) \<and> \<not> truthy (d_alt_id doc_blank)"
    "new_Date (d_updatedAt doc_blank) = None"
    by code_simp+
  have v: "valid_date (d_updatedAt doc_later)"
    by code_simp
  have l: "toPublic (Some doc_later) = Inr (Some public_later)"
    by code_simp
  have j: "truthy (d_id doc_later) \<and> truthy (d_updatedAt doc_later)"
    by code_simp
  note blank = toPublic_total_on_valid_dates[of doc_blank, unfolded e sum.case option.case]
  note later = toPublic_total_on_valid_dates[of doc_later, unfolded l sum.case option.case]
  have "p_id public_blank = Null \<and> p_updated public_blank = Null"
    using blank h i by simp
  moreover have "p_id public_later = Str (String_of (d_id doc_later))
      \<and> p_updatedAt public_later = d_updatedAt doc_later"
    using later v j by simp
  ultimately show ?thesis
    using h e v l by blast
qed

section \<open>The shell's search\<close>

text \<open>
  Claim C8, as the code has it.  For a keyword that is not blank the search returns, in
  the order of the listing, exactly the records whose name contains the trimmed
  keyword without regard to case, or whose id does, or whose \<^verbatim>\<open>userID\<close> is the keyword
  when it is all digits.  So every record whose name contains the keyword is returned,
  but not only those.  A blank keyword searches nothing.
\<close>

theorem search_by_name_id_or_userID:
  "(trim answer = [] \<longrightarrow> search answer rs = None)
   \<and> (trim answer \<noteq> [] \<longrightarrow>
        (case search answer rs of
           None \<Rightarrow> False
         | Some out \<Rightarrow>
             out = filter (\<lambda>x. x \<in> set out) rs
             \<and> None \<notin> set out
             \<and> (Some r \<in> set out) =
                 (Some r \<in> set rs
                  \<and> (name_contains (trim answer) r \<or> id_contains (trim answer) r
                       \<or> userID_matches (trim answer) r))
             \<and> (Some r \<in> set rs \<and> name_contains (trim answer) r \<longrightarrow> Some r \<in> set out)))"
proof -
  have f: "filter P xs = filter (\<lambda>x. x \<in> set (filter P xs)) xs" for P :: "'a \<Rightarrow> bool" and xs
    by (induction xs) (auto intro: filter_cong)
  show ?thesis
    using f[of "search_match (trim answer)" rs]
    by (auto simp: search_def Let_def search_match_def split: option.splits if_splits)
qed

theorem search_returns_other_records:
  "search ''f'' [Some public_one] = Some [Some public_one]
   \<and> \<not> name_contains ''f'' public_one
   \<and> search ''1'' [Some public_one] = Some [Some public_one]
   \<and> \<not> name_contains ''1'' public_one"
  by code_simp

theorem search_by_name_id_or_userID_witness:
  "trim ''  '' = [] \<and> search ''  '' [Some public_one, None] = None
   \<and> trim '' a '' \<noteq> []
   \<and> search '' a '' [Some public_one, None] = Some [Some public_one]
   \<and> Some public_one \<in> set [Some public_one, None]
   \<and> name_contains (trim '' a '') public_one
   \<and> Some public_one \<in> set [Some public_one]"
proof -
  have b: "trim ''  '' = []"
    by code_simp
  have k: "trim '' a '' \<noteq> []"
    by code_simp
  have e: "search '' a '' [Some public_one, None] = Some [Some public_one]"
    by code_simp
  have n: "name_contains (trim '' a '') public_one"
    by code_simp
  note blank = search_by_name_id_or_userID[of "''  ''" "[Some public_one, None]" public_one]
  note found = search_by_name_id_or_userID[of "'' a ''" "[Some public_one, None]" public_one,
      unfolded e option.case]
  have "search ''  '' [Some public_one, None] = None"
    using blank b by blast
  moreover have "Some public_one \<in> set [Some public_one]"
    using found k n by simp
  ultimately show ?thesis
    using b k e n by simp
qed

section \<open>The activity logger\<close>

text \<open>
  Claim C7 does not hold of the code.  The store's module exports no \<^verbatim>\<open>emitter\<close>, so
  the logger subscribes to nothing, and whatever a process does, no line is written.
  The names would not meet either: the store emits \<^verbatim>\<open>recordAdded\<close>, \<^verbatim>\<open>recordUpdated\<close>
  and \<^verbatim>\<open>recordDeleted\<close>, the logger listens for \<^verbatim>\<open>add\<close>, \<^verbatim>\<open>update\<close> and \<^verbatim>\<open>delete\<close>.
\<close>

theorem logger_never_logs:
  "logger_subscriptions db_exports = []
   \<and> activity_log ts (run cs (process_start ds)) = []
   \<and> emitted state_one = [(''recordAdded'', Some public_one)]
   \<and> deliver (logger_subscriptions (''emitter'' # db_exports)) ts (''recordAdded'', Some public_one) = []"
proof -
  have a: "logger_subscriptions db_exports = []"
    by (simp add: logger_subscriptions_def db_exports_def)
  have b: "emitted state_one = [(''recordAdded'', Some public_one)]"
    by code_simp
  have c: "deliver (logger_subscriptions (''emitter'' # db_exports)) ts (''recordAdded'', Some public_one) = []"
    by (simp add: deliver_def logger_subscriptions_def)
  show ?thesis
    using a b c by (simp add: activity_log_def deliver_def split: option.splits)
qed

end
